theory Spec2Isabelle
  imports Main
begin

section \<open>JavaScript values\<close>

text \<open>
  The program (\<^verbatim>\<open>src/index.js\<close>, an AWS Lambda handler for osquery agents) works on
  values that come out of \<^verbatim>\<open>JSON.parse\<close>. They are modelled by one datatype. Numbers are
  restricted to integers (timestamps are whole seconds); \<^verbatim>\<open>NaN\<close>, where the program can
  produce it, is written as \<open>None\<close> of type \<open>num\<close> below. Strings are lists of characters.

  An object is the association list of its own properties. Reading a property takes the
  first entry of the key (\<open>map_of\<close>), \<^verbatim>\<open>Object.keys\<close> reports every key once, and a
  property write replaces the entry in place or appends a new one.
  No theorem below depends on the order in which \<^verbatim>\<open>Object.keys\<close> lists the keys.
\<close>

datatype jsval =
    JUndefined
  | JNull
  | JBool bool
  | JNum int
  | JStr string
  | JArr "jsval list"
  | JObj "(string \<times> jsval) list"

type_synonym obj = "(string \<times> jsval) list"

definition keys :: "(string \<times> 'v) list \<Rightarrow> string list" where
  "keys ob = remdups (map fst ob)"

definition get_prop :: "obj \<Rightarrow> string \<Rightarrow> jsval" where
  "get_prop ob k = (case map_of ob k of None \<Rightarrow> JUndefined | Some v \<Rightarrow> v)"

primrec put :: "string \<Rightarrow> 'v \<Rightarrow> (string \<times> 'v) list \<Rightarrow> (string \<times> 'v) list" where
  "put k v [] = [(k, v)]"
| "put k v (p # ps) = (if fst p = k then (k, v) # ps else p # put k v ps)"

text \<open>
  Every object the program creates (\<^verbatim>\<open>{}\<close>, an object literal, a result of
  \<^verbatim>\<open>JSON.parse\<close>) inherits from \<^verbatim>\<open>Object.prototype\<close>. \<open>objectPrototype\<close> lists the
  properties that \<^verbatim>\<open>Object.prototype\<close> has when the platform has created it and the
  program has added nothing to it: eleven functions and the accessor \<^verbatim>\<open>__proto__\<close>.
  Every statement below is about a call that starts with \<^verbatim>\<open>Object.prototype\<close> in this
  state.

  A read \<^verbatim>\<open>o[k]\<close> yields the own property \<^verbatim>\<open>k\<close> of \<^verbatim>\<open>o\<close> when there is one, and
  otherwise the property \<^verbatim>\<open>k\<close> of \<^verbatim>\<open>Object.prototype\<close>: a function or
  \<^verbatim>\<open>Object.prototype\<close> itself, all truthy, for the names of the list, and \<^verbatim>\<open>undefined\<close>
  for every other name (\<open>plainName\<close>). \<open>get_prop\<close> and \<open>map_of\<close> are the read of own
  properties. They are the whole read for a key that \<^verbatim>\<open>Object.keys\<close> has listed and for a
  plain name. Two reads of the program take a name of the input that no \<^verbatim>\<open>Object.keys\<close>
  has listed and go on writing into what they find: \<^verbatim>\<open>tables[record.name] || {}\<close> in
  \<^verbatim>\<open>parseResult\<close> and \<^verbatim>\<open>rules[tableName] || {}\<close> in \<^verbatim>\<open>getRules\<close>. For a name of the list
  they find an object of the platform, which the objects modelled here do not include;
  the definitions follow these two reads for plain names, and every statement below
  that rests on them has the hypothesis that the names are plain. (The read
  \<^verbatim>\<open>RULES[tableName]\<close> in \<^verbatim>\<open>processRules\<close> only tests and lists what it finds: for a name of
  the list that the catalog does not hold it finds an object without enumerable own
  properties, so no rule is applied, as when it finds nothing.)

  A write \<^verbatim>\<open>o[k] = v\<close> to such an object creates or replaces the own property \<^verbatim>\<open>k\<close>,
  for every name but \<^verbatim>\<open>__proto__\<close>: there it calls the setter of the accessor, which
  makes \<^verbatim>\<open>v\<close> the prototype of \<^verbatim>\<open>o\<close> when \<^verbatim>\<open>v\<close> is an object and does nothing
  otherwise, and no own property is stored. \<open>assign\<close> is this write on the own properties.
\<close>

definition objectPrototype :: "string list" where
  "objectPrototype =
     [''constructor'', ''__defineGetter__'', ''__defineSetter__'', ''hasOwnProperty'',
      ''__lookupGetter__'', ''__lookupSetter__'', ''isPrototypeOf'', ''propertyIsEnumerable'',
      ''toString'', ''valueOf'', ''__proto__'', ''toLocaleString'']"

definition plainName :: "string \<Rightarrow> bool" where
  "plainName k \<longleftrightarrow> k \<notin> set objectPrototype"

definition assign :: "string \<Rightarrow> jsval \<Rightarrow> obj \<Rightarrow> obj" where
  "assign k v ob = (if k = ''__proto__'' then ob else put k v ob)"

text \<open>\<^verbatim>\<open>ToBoolean\<close>: what \<^verbatim>\<open>if (x)\<close>, \<^verbatim>\<open>!x\<close> and \<^verbatim>\<open>x && y\<close> test.\<close>

fun truthy :: "jsval \<Rightarrow> bool" where
  "truthy JUndefined = False"
| "truthy JNull = False"
| "truthy (JBool b) = b"
| "truthy (JNum n) = (n \<noteq> 0)"
| "truthy (JStr s) = (s \<noteq> [])"
| "truthy (JArr xs) = True"
| "truthy (JObj kvs) = True"

text \<open>The exceptions the program can raise.\<close>

datatype error = TypeError | SyntaxError

section \<open>Numbers and their decimal strings\<close>

text \<open>
  A number that may be \<^verbatim>\<open>NaN\<close>. \<open>num_str\<close> is the string that \<^verbatim>\<open>'' + n\<close> and
  \<^verbatim>\<open>s += n\<close> append; \<open>num_lt\<close> is \<^verbatim>\<open><\<close>, false whenever an operand is \<^verbatim>\<open>NaN\<close>.
\<close>

type_synonym num = "int option"

definition digit :: "nat \<Rightarrow> char" where
  "digit n = ''0123456789'' ! n"

fun nat_str :: "nat \<Rightarrow> string" where
  "nat_str n = (if n < 10 then [digit n] else nat_str (n div 10) @ [digit (n mod 10)])"

declare nat_str.simps [simp del]

definition int_str :: "int \<Rightarrow> string" where
  "int_str i = (if i < 0 then CHR ''-'' # nat_str (nat (- i)) else nat_str (nat i))"

definition num_str :: "num \<Rightarrow> string" where
  "num_str n = (case n of None \<Rightarrow> ''NaN'' | Some i \<Rightarrow> int_str i)"

definition num_lt :: "num \<Rightarrow> int \<Rightarrow> bool" where
  "num_lt n k = (case n of None \<Rightarrow> False | Some i \<Rightarrow> i < k)"

definition num_add :: "num \<Rightarrow> int \<Rightarrow> num" where
  "num_add n k = map_option (\<lambda>i. i + k) n"

definition num_mul :: "num \<Rightarrow> int \<Rightarrow> num" where
  "num_mul n k = map_option (\<lambda>i. i * k) n"

section \<open>The Date built-in\<close>

text \<open>
  \<^verbatim>\<open>new Date(ms)\<close> and the getters \<^verbatim>\<open>getUTCFullYear\<close>, \<^verbatim>\<open>getUTCMonth\<close>, \<^verbatim>\<open>getUTCDate\<close>
  are built-ins of the platform. They are written down here from the ECMAScript
  definitions (time values are milliseconds since 1970-01-01T00:00:00Z, \<open>Day\<close>,
  \<open>DayFromYear\<close>, \<open>YearFromTime\<close>, \<open>InLeapYear\<close>, \<open>MonthFromTime\<close>, \<open>DateFromTime\<close>,
  \<open>TimeClip\<close>). ECMAScript defines \<open>YearFromTime\<close> as the largest year that starts no later
  than the time value; \<open>YearFromDay\<close> computes it from an estimate that is off by at most
  one, and \<open>YearFromDay_bounds\<close> below proves that it is that year.
\<close>

definition msPerDay :: int where
  "msPerDay = 86400000"

definition Day :: "int \<Rightarrow> int" where
  "Day t = t div msPerDay"

definition DaysInYear :: "int \<Rightarrow> int" where
  "DaysInYear y =
     (if y mod 4 \<noteq> 0 then 365
      else if y mod 100 \<noteq> 0 then 366
      else if y mod 400 \<noteq> 0 then 365
      else 366)"

definition DayFromYear :: "int \<Rightarrow> int" where
  "DayFromYear y =
     365 * (y - 1970) + (y - 1969) div 4 - (y - 1901) div 100 + (y - 1601) div 400"

definition YearFromDay :: "int \<Rightarrow> int" where
  "YearFromDay d =
     (let y0 = 1970 + (400 * d) div 146097
      in if d < DayFromYear y0 then y0 - 1
         else if DayFromYear (y0 + 1) \<le> d then y0 + 1
         else y0)"

definition YearFromTime :: "int \<Rightarrow> int" where
  "YearFromTime t = YearFromDay (Day t)"

definition InLeapYear :: "int \<Rightarrow> int" where
  "InLeapYear t = (if DaysInYear (YearFromTime t) = 366 then 1 else 0)"

definition DayWithinYear :: "int \<Rightarrow> int" where
  "DayWithinYear t = Day t - DayFromYear (YearFromTime t)"

definition MonthFromTime :: "int \<Rightarrow> int" where
  "MonthFromTime t =
     (let d = DayWithinYear t; l = InLeapYear t
      in if d < 31 then 0
         else if d < 59 + l then 1
         else if d < 90 + l then 2
         else if d < 120 + l then 3
         else if d < 151 + l then 4
         else if d < 181 + l then 5
         else if d < 212 + l then 6
         else if d < 243 + l then 7
         else if d < 273 + l then 8
         else if d < 304 + l then 9
         else if d < 334 + l then 10
         else 11)"

definition DateFromTime :: "int \<Rightarrow> int" where
  "DateFromTime t =
     (let d = DayWithinYear t; l = InLeapYear t; m = MonthFromTime t
      in if m = 0 then d + 1
         else if m = 1 then d - 30
         else if m = 2 then d - 58 - l
         else if m = 3 then d - 89 - l
         else if m = 4 then d - 119 - l
         else if m = 5 then d - 150 - l
         else if m = 6 then d - 180 - l
         else if m = 7 then d - 211 - l
         else if m = 8 then d - 242 - l
         else if m = 9 then d - 272 - l
         else if m = 10 then d - 303 - l
         else d - 333 - l)"

text \<open>
  \<open>TimeClip\<close>: a time value beyond 8.64e15 ms in magnitude, or \<^verbatim>\<open>NaN\<close>, gives an invalid
  date, whose getters all return \<^verbatim>\<open>NaN\<close>.
\<close>

definition TimeClip :: "num \<Rightarrow> num" where
  "TimeClip n =
     (case n of None \<Rightarrow> None
      | Some t \<Rightarrow> if 8640000000000000 < \<bar>t\<bar> then None else Some t)"

definition getUTCFullYear :: "num \<Rightarrow> num" where
  "getUTCFullYear date = map_option YearFromTime date"

definition getUTCMonth :: "num \<Rightarrow> num" where
  "getUTCMonth date = map_option MonthFromTime date"

definition getUTCDate :: "num \<Rightarrow> num" where
  "getUTCDate date = map_option DateFromTime date"

section \<open>getDay\<close>

text \<open>
  \<^verbatim>\<open>
  function getDay(unixTime) {
    const date = new Date(unixTime * 1000);
    const month = date.getUTCMonth() + 1;
    let day = '' + date.getUTCFullYear();
    day += month < 10 ? ('0' + month) : month;
    day += date.getUTCDate() < 10 ? ('0' + date.getUTCDate()) : date.getUTCDate();
    return day;
  }
  \<close>
  The argument is the record's \<^verbatim>\<open>unixTime\<close>: \<open>Some n\<close> for a number of seconds, \<open>None\<close>
  when the multiplication gives \<^verbatim>\<open>NaN\<close> (the field is absent). The function is the same in
  both revisions of the file.
\<close>

definition getDay :: "num \<Rightarrow> string" where
  "getDay unixTime =
     (let date = TimeClip (num_mul unixTime 1000);
          month = num_add (getUTCMonth date) 1;
          day = num_str (getUTCFullYear date);
          day = day @ (if num_lt month 10 then ''0'' @ num_str month else num_str month);
          day = day @ (if num_lt (getUTCDate date) 10
                       then ''0'' @ num_str (getUTCDate date)
                       else num_str (getUTCDate date))
      in day)"

section \<open>parseResult: the Record Partitioner and the Field Normalizer\<close>

text \<open>
  One element of \<^verbatim>\<open>body.data\<close>. \<open>unixTime\<close> is \<open>Some n\<close> for a number of seconds and
  \<open>None\<close> when the record has no such field (\<^verbatim>\<open>undefined\<close>, which the row then carries
  and which \<^verbatim>\<open>unixTime * 1000\<close> turns into \<^verbatim>\<open>NaN\<close>). A \<^verbatim>\<open>unixTime\<close> of another type
  (\<^verbatim>\<open>null\<close>, a string, a boolean), which the multiplication would convert to a number
  first, is not among the records modelled. \<open>columns\<close> is an object.
\<close>

record incoming =
  name :: string
  calendarTime :: jsval
  unixTime :: num
  action :: jsval
  columns :: obj

definition num_val :: "num \<Rightarrow> jsval" where
  "num_val n = (case n of None \<Rightarrow> JUndefined | Some i \<Rightarrow> JNum i)"

text \<open>\<^verbatim>\<open>s.charAt(i)\<close>: the character at index \<open>i\<close>, the empty string out of range.\<close>

definition charAt :: "string \<Rightarrow> int \<Rightarrow> string" where
  "charAt s i = (if 0 \<le> i \<and> i < int (length s) then [s ! nat i] else [])"

text \<open>
  The condition of the \<^verbatim>\<open>if\<close> in the column loop of the later revision:
  \<^verbatim>\<open>
  value && typeof value === 'string' && value.length > 1
    && (value.charAt(0) === '{' && value.charAt(value.length - 1) === '}')
      || (value.charAt(0) === '[' && value.charAt(value.length - 1) === ']')
  \<close>
  \<^verbatim>\<open>&&\<close> binds tighter than \<^verbatim>\<open>||\<close>, so the whole \<^verbatim>\<open>&&\<close> chain is the left operand of
  \<^verbatim>\<open>||\<close> and the test for brackets is the right operand, outside the \<^verbatim>\<open>typeof\<close> guard.
  For a value that is not a string the left operand is false and the right operand is
  evaluated next: \<^verbatim>\<open>value.charAt\<close> is not a function there (or \<^verbatim>\<open>value\<close> is
  \<^verbatim>\<open>undefined\<close> or \<^verbatim>\<open>null\<close>), which raises \<^verbatim>\<open>TypeError\<close>.
\<close>

fun jsonShaped :: "jsval \<Rightarrow> error + bool" where
  "jsonShaped (JStr s) =
     Inr ((truthy (JStr s) \<and> 1 < length s
            \<and> (charAt s 0 = ''{'' \<and> charAt s (int (length s) - 1) = ''}''))
          \<or> (charAt s 0 = ''['' \<and> charAt s (int (length s) - 1) = '']''))"
| "jsonShaped value = Inl TypeError"

text \<open>
  The Field Normalizer: the \<^verbatim>\<open>if\<close>/\<^verbatim>\<open>else\<close> of the column loop, giving the value stored
  in the row. \<^verbatim>\<open>JSON.parse\<close> is a built-in of the platform and is a parameter here:
  \<open>parse s = None\<close> when \<^verbatim>\<open>JSON.parse(s)\<close> throws \<^verbatim>\<open>SyntaxError\<close>.
\<close>

definition normalize :: "(string \<Rightarrow> jsval option) \<Rightarrow> jsval \<Rightarrow> error + jsval" where
  "normalize parse value =
     (case jsonShaped value of
        Inl e \<Rightarrow> Inl e
      | Inr True \<Rightarrow>
          (case value of
             JStr s \<Rightarrow> (case parse s of None \<Rightarrow> Inl SyntaxError | Some v \<Rightarrow> Inr v)
           | _ \<Rightarrow> Inl TypeError)
      | Inr False \<Rightarrow> Inr value)"

text \<open>
  \<^verbatim>\<open>
  const row = {
    calendarTime: record.calendarTime,
    unixTime: record.unixTime,
    added: record.action === 'added',
  };
  Object.keys(record.columns).forEach(key => {
    const value = record.columns[key];
    if (...) { row[key] = JSON.parse(value); } else { row[key] = value; }
  });
  \<close>
  An exception leaves the loop and \<^verbatim>\<open>parseResult\<close>: there is no \<^verbatim>\<open>try\<close> in the function.
  The keys are those that \<^verbatim>\<open>Object.keys\<close> lists, so \<^verbatim>\<open>record.columns[key]\<close> reads an own
  property. \<^verbatim>\<open>row[key] = ...\<close> is the write \<open>assign\<close>: a column named \<^verbatim>\<open>__proto__\<close>
  (\<^verbatim>\<open>JSON.parse\<close> creates it as an own property of \<^verbatim>\<open>columns\<close>) leaves no entry in the row.
\<close>

definition newRow :: "incoming \<Rightarrow> obj" where
  "newRow record =
     [(''calendarTime'', calendarTime record),
      (''unixTime'', num_val (unixTime record)),
      (''added'', JBool (action record = JStr ''added''))]"

fun copyColumns :: "(string \<Rightarrow> jsval option) \<Rightarrow> obj \<Rightarrow> string list \<Rightarrow> obj \<Rightarrow> error + obj" where
  "copyColumns parse cols [] row = Inr row"
| "copyColumns parse cols (key # ks) row =
     (case normalize parse (get_prop cols key) of
        Inl e \<Rightarrow> Inl e
      | Inr v \<Rightarrow> copyColumns parse cols ks (assign key v row))"

definition makeRow :: "(string \<Rightarrow> jsval option) \<Rightarrow> incoming \<Rightarrow> error + obj" where
  "makeRow parse record =
     copyColumns parse (columns record) (keys (columns record)) (newRow record)"

text \<open>
  The dataset: table name to day to rows.
  \<^verbatim>\<open>
  const tables = {};
  for (const record of data) {
    const day = getDay(record.unixTime);
    const partitions = tables[record.name] || {};
    tables[record.name] = partitions;
    if (!partitions[day]) { partitions[day] = []; }
    const row = ...;
    partitions[day].push(row);
  }
  return tables;
  \<close>
  \<^verbatim>\<open>partitions\<close> is the object stored in \<^verbatim>\<open>tables\<close>, so the push is seen through
  \<^verbatim>\<open>tables\<close>; \<open>addRow\<close>, the table update of one turn of the loop, writes the updated
  partitions back. Objects and arrays are truthy, so \<^verbatim>\<open>||\<close> and \<^verbatim>\<open>!\<close> only test for
  absence. The row is built before anything is pushed, and an exception while it is built
  ends the function without a result.

  \<open>partitionsOf\<close> is the read \<^verbatim>\<open>tables[record.name] || {}\<close> for a plain name: the
  partitions that \<^verbatim>\<open>tables\<close> holds under the name, or a new empty object. For a name of
  \<open>objectPrototype\<close> that \<^verbatim>\<open>tables\<close> does not hold, the program finds a function of the
  platform or \<^verbatim>\<open>Object.prototype\<close> and creates the bucket there, where it outlasts the
  call; \<open>addRow\<close> does not describe that. A day key is made of digits, a minus sign or
  \<^verbatim>\<open>NaN\<close> and is a plain name (lemma \<open>getDay_plain\<close>), so \<^verbatim>\<open>partitions[day]\<close> reads an own
  property of \<^verbatim>\<open>partitions\<close>.
\<close>

type_synonym partitions = "(string \<times> obj list) list"
type_synonym dataset = "(string \<times> partitions) list"

definition bucket :: "partitions \<Rightarrow> string \<Rightarrow> obj list" where
  "bucket partitions day = (case map_of partitions day of None \<Rightarrow> [] | Some rows \<Rightarrow> rows)"

definition partitionsOf :: "dataset \<Rightarrow> string \<Rightarrow> partitions" where
  "partitionsOf tables tableName = (case map_of tables tableName of None \<Rightarrow> [] | Some p \<Rightarrow> p)"

definition addRow :: "incoming \<Rightarrow> obj \<Rightarrow> dataset \<Rightarrow> dataset" where
  "addRow record row tables =
     (let day = getDay (unixTime record);
          partitions = partitionsOf tables (name record);
          partitions = (if map_of partitions day = None then put day [] partitions
                        else partitions)
      in put (name record) (put day (bucket partitions day @ [row]) partitions) tables)"

fun parseLoop :: "(string \<Rightarrow> jsval option) \<Rightarrow> incoming list \<Rightarrow> dataset \<Rightarrow> error + dataset" where
  "parseLoop parse [] tables = Inr tables"
| "parseLoop parse (record # rest) tables =
     (case makeRow parse record of
        Inl e \<Rightarrow> Inl e
      | Inr row \<Rightarrow> parseLoop parse rest (addRow record row tables))"

definition parseResult :: "(string \<Rightarrow> jsval option) \<Rightarrow> incoming list \<Rightarrow> error + dataset" where
  "parseResult parse data = parseLoop parse data []"

section \<open>getRules: the Rule Catalog Loader\<close>

text \<open>
  The input is the sequence of parsed rule files, in the order \<^verbatim>\<open>readdirSync\<close> lists them.
  A file is an object from group names to groups; a rule expression is a JSON value.
  \<^verbatim>\<open>
  const rules = {};
  for (const ruleFile of ...) {
    const parsed = JSON.parse(...);
    Object.keys(parsed).forEach(groupName => {
      const group = parsed[groupName];
      for (const tableName of group.tables) {
        const tableRules = rules[tableName] || {};
        rules[tableName] = tableRules;
        Object.keys(group.rules).forEach(ruleName => tableRules[ruleName] = group.rules[ruleName]);
      }
    });
  }
  return rules;
  \<close>
  \<^verbatim>\<open>rules[tableName] || {}\<close> is modelled for a plain table name, like
  \<^verbatim>\<open>tables[record.name] || {}\<close> in \<^verbatim>\<open>parseResult\<close>: for a table named \<^verbatim>\<open>__proto__\<close> the
  program finds \<^verbatim>\<open>Object.prototype\<close>, writes the rules of the group into it and gives the
  catalog no key, which \<open>addTable\<close> does not describe. The write
  \<^verbatim>\<open>tableRules[ruleName] = ...\<close> is \<open>assign\<close>: a rule named \<^verbatim>\<open>__proto__\<close> leaves no entry.
\<close>

record rule_group =
  tables :: "string list"
  rules :: obj

type_synonym document = "(string \<times> rule_group) list"
type_synonym catalog = "(string \<times> obj) list"

definition mergeRules :: "obj \<Rightarrow> obj \<Rightarrow> obj" where
  "mergeRules groupRules tableRules =
     fold (\<lambda>ruleName tr. assign ruleName (get_prop groupRules ruleName) tr)
       (keys groupRules) tableRules"

definition addTable :: "rule_group \<Rightarrow> string \<Rightarrow> catalog \<Rightarrow> catalog" where
  "addTable grp tableName rs =
     (let tableRules = (case map_of rs tableName of None \<Rightarrow> [] | Some tr \<Rightarrow> tr)
      in put tableName (mergeRules (rules grp) tableRules) rs)"

definition addGroup :: "rule_group \<Rightarrow> catalog \<Rightarrow> catalog" where
  "addGroup grp rs = fold (addTable grp) (tables grp) rs"

definition addFile :: "document \<Rightarrow> catalog \<Rightarrow> catalog" where
  "addFile parsed rs =
     fold (\<lambda>groupName rs'. case map_of parsed groupName of
                               None \<Rightarrow> rs'
                             | Some grp \<Rightarrow> addGroup grp rs')
       (keys parsed) rs"

definition getRules :: "document list \<Rightarrow> catalog" where
  "getRules files = fold addFile files []"

section \<open>processRules: the Rule Evaluator\<close>





text \<open>
  The groups in the order in which \<^verbatim>\<open>getRules\<close> merges them, and the merge that the
  catalog is compared with: starting from no rules, every group that names the table adds
  its rules, a later expression replacing an earlier one of the same rule name.
\<close>

definition fileGroups :: "document \<Rightarrow> rule_group list" where
  "fileGroups parsed =
     concat (map (\<lambda>groupName. case map_of parsed groupName of None \<Rightarrow> [] | Some grp \<Rightarrow> [grp])
       (keys parsed))"

definition allGroups :: "document list \<Rightarrow> rule_group list" where
  "allGroups files = concat (map fileGroups files)"

definition mergeStep :: "string \<Rightarrow> (string \<rightharpoonup> jsval) \<Rightarrow> rule_group \<Rightarrow> (string \<rightharpoonup> jsval)" where
  "mergeStep t m grp = (if t \<in> set (tables grp) then m ++ map_of (rules grp) else m)"

definition mergedRules :: "rule_group list \<Rightarrow> string \<Rightarrow> (string \<rightharpoonup> jsval)" where
  "mergedRules gs t = foldl (mergeStep t) Map.empty gs"

definition tableRulesOf :: "catalog \<Rightarrow> string \<Rightarrow> (string \<rightharpoonup> jsval)" where
  "tableRulesOf rs t = (case map_of rs t of None \<Rightarrow> Map.empty | Some tr \<Rightarrow> map_of tr)"

text \<open>
  \<^verbatim>\<open>String.prototype.trim\<close>, for characters up to U+00FF: it removes tab, line feed,
  vertical tab, form feed, carriage return, space and no-break space at both ends.
\<close>

definition isSpace :: "char \<Rightarrow> bool" where
  "isSpace c \<longleftrightarrow> c \<in> {CHR 0x09, CHR 0x0A, CHR 0x0B, CHR 0x0C, CHR 0x0D, CHR '' '', CHR 0xA0}"

definition trim :: "string \<Rightarrow> string" where
  "trim s = rev (dropWhile isSpace (rev (dropWhile isSpace s)))"

section \<open>The UTC calendar\<close>

text \<open>
  What the day key is compared with. The UTC calendar date of a Unix time is found by
  counting days from 1 January 1970: \<open>nextDay\<close> and \<open>prevDay\<close> step a date of the
  Gregorian calendar by one day, and \<open>civil n\<close> is the date \<open>n\<close> days after (before, when
  \<open>n\<close> is negative) 1970-01-01. \<open>zeroPad k n\<close> is the decimal numeral of \<open>n\<close> in \<open>k\<close> digits,
  padded with zeros.
\<close>

type_synonym date = "int \<times> int \<times> int"

definition leapYear :: "int \<Rightarrow> bool" where
  "leapYear y \<longleftrightarrow> y mod 4 = 0 \<and> (y mod 100 \<noteq> 0 \<or> y mod 400 = 0)"

definition daysInMonth :: "int \<Rightarrow> int \<Rightarrow> int" where
  "daysInMonth y m =
     (if m = 2 then (if leapYear y then 29 else 28)
      else if m = 4 \<or> m = 6 \<or> m = 9 \<or> m = 11 then 30
      else 31)"

definition nextDay :: "date \<Rightarrow> date" where
  "nextDay = (\<lambda>(y, m, d).
     if d < daysInMonth y m then (y, m, d + 1)
     else if m < 12 then (y, m + 1, 1)
     else (y + 1, 1, 1))"

definition prevDay :: "date \<Rightarrow> date" where
  "prevDay = (\<lambda>(y, m, d).
     if 1 < d then (y, m, d - 1)
     else if 1 < m then (y, m - 1, daysInMonth y (m - 1))
     else (y - 1, 12, 31))"

definition civil :: "int \<Rightarrow> date" where
  "civil n = (if 0 \<le> n then (nextDay ^^ nat n) (1970, 1, 1)
              else (prevDay ^^ nat (- n)) (1970, 1, 1))"

definition utcDate :: "int \<Rightarrow> date" where
  "utcDate secs = civil (secs div 86400)"

fun zeroPad :: "nat \<Rightarrow> nat \<Rightarrow> string" where
  "zeroPad 0 n = []"
| "zeroPad (Suc k) n = zeroPad k (n div 10) @ [digit (n mod 10)]"

text \<open>
  The date that the getters of a \<^verbatim>\<open>Date\<close> return together, and the month and day tables
  of \<open>MonthFromTime\<close> and \<open>DateFromTime\<close> as functions of the day within the year and the
  leap-year flag; \<open>dayDate\<close> is that date for a day number.
\<close>

definition jsDate :: "int \<Rightarrow> date" where
  "jsDate t = (YearFromTime t, MonthFromTime t + 1, DateFromTime t)"

definition monthOf :: "int \<Rightarrow> int \<Rightarrow> int" where
  "monthOf d l =
     (if d < 31 then 0
      else if d < 59 + l then 1
      else if d < 90 + l then 2
      else if d < 120 + l then 3
      else if d < 151 + l then 4
      else if d < 181 + l then 5
      else if d < 212 + l then 6
      else if d < 243 + l then 7
      else if d < 273 + l then 8
      else if d < 304 + l then 9
      else if d < 334 + l then 10
      else 11)"

definition dateOf :: "int \<Rightarrow> int \<Rightarrow> int" where
  "dateOf d l =
     (let m = monthOf d l
      in if m = 0 then d + 1
         else if m = 1 then d - 30
         else if m = 2 then d - 58 - l
         else if m = 3 then d - 89 - l
         else if m = 4 then d - 119 - l
         else if m = 5 then d - 150 - l
         else if m = 6 then d - 180 - l
         else if m = 7 then d - 211 - l
         else if m = 8 then d - 242 - l
         else if m = 9 then d - 272 - l
         else if m = 10 then d - 303 - l
         else d - 333 - l)"

definition monthLen :: "int \<Rightarrow> int \<Rightarrow> int" where
  "monthLen m l =
     (if m = 1 then 28 + l
      else if m = 3 \<or> m = 5 \<or> m = 8 \<or> m = 10 then 30
      else 31)"

definition dayDate :: "int \<Rightarrow> date" where
  "dayDate n =
     (let y = YearFromDay n;
          l = (if DaysInYear y = 366 then 1 else 0);
          w = n - DayFromYear y
      in (y, monthOf w l + 1, dateOf w l))"

definition validDate :: "date \<Rightarrow> bool" where
  "validDate = (\<lambda>(y, m, d). 1 \<le> m \<and> m \<le> 12 \<and> 1 \<le> d \<and> d \<le> daysInMonth y m)"

section \<open>The partitioned dataset, as specified\<close>

text \<open>
  What the dataset is compared with. \<open>recordsIn data n d\<close> are the records of the batch
  with table name \<open>n\<close> and day key \<open>d\<close>, in the order of the batch; \<open>rowOf\<close> is the row that
  \<open>makeRow\<close> builds for a record; \<open>rowsAt ds n d\<close> is \<^verbatim>\<open>ds[n][d]\<close>, empty when there is no
  such bucket; \<open>totalRows\<close> adds up the lengths of all buckets.
\<close>

definition recordsIn :: "incoming list \<Rightarrow> string \<Rightarrow> string \<Rightarrow> incoming list" where
  "recordsIn data n d = filter (\<lambda>r. name r = n \<and> getDay (unixTime r) = d) data"

definition rowOf :: "(string \<Rightarrow> jsval option) \<Rightarrow> incoming \<Rightarrow> obj" where
  "rowOf parse r = (case makeRow parse r of Inl e \<Rightarrow> [] | Inr row \<Rightarrow> row)"

definition rowsAt :: "dataset \<Rightarrow> string \<Rightarrow> string \<Rightarrow> obj list" where
  "rowsAt ds n d = bucket (partitionsOf ds n) d"

definition bucketRows :: "partitions \<Rightarrow> nat" where
  "bucketRows p = sum_list (map (\<lambda>(d, rows). length rows) p)"

definition totalRows :: "dataset \<Rightarrow> nat" where
  "totalRows ds = sum_list (map (\<lambda>(n, p). bucketRows p) ds)"

definition bucketsFilled :: "dataset \<Rightarrow> bool" where
  "bucketsFilled ds \<longleftrightarrow>
     (\<forall>n p d rows. map_of ds n = Some p \<and> map_of p d = Some rows \<longrightarrow> rows \<noteq> [])"

definition keysDistinct :: "dataset \<Rightarrow> bool" where
  "keysDistinct ds \<longleftrightarrow>
     distinct (map fst ds) \<and> (\<forall>n p. map_of ds n = Some p \<longrightarrow> distinct (map fst p))"

text \<open>
  The records for which the column loop raises nothing (lemma \<open>makeRow_ok_iff\<close>): every
  column value is a string (\<open>stringColumns\<close>; on a value that is not a string the test
  for brackets raises \<^verbatim>\<open>TypeError\<close>), and every column value that passes the test for
  brackets is accepted by \<^verbatim>\<open>JSON.parse\<close> (\<open>parsable\<close>). The column values of an
  IncomingRecord of the specification may also be numbers and booleans; a record with
  such a value is not \<open>normalizable\<close>.
\<close>

definition stringColumns :: "incoming \<Rightarrow> bool" where
  "stringColumns r \<longleftrightarrow> (\<forall>k\<in>set (keys (columns r)). \<exists>s. get_prop (columns r) k = JStr s)"

definition parsable :: "(string \<Rightarrow> jsval option) \<Rightarrow> incoming \<Rightarrow> bool" where
  "parsable parse r \<longleftrightarrow>
     (\<forall>k\<in>set (keys (columns r)). \<forall>s. get_prop (columns r) k = JStr s
        \<and> jsonShaped (JStr s) = Inr True \<longrightarrow> parse s \<noteq> None)"

definition normalizable :: "(string \<Rightarrow> jsval option) \<Rightarrow> incoming \<Rightarrow> bool" where
  "normalizable parse r \<longleftrightarrow> stringColumns r \<and> parsable parse r"

text \<open>The partitions of a record's table after the bucket of its day has been created.\<close>

definition ensured :: "incoming \<Rightarrow> dataset \<Rightarrow> partitions" where
  "ensured r ds =
     (if map_of (partitionsOf ds (name r)) (getDay (unixTime r)) = None
      then put (getDay (unixTime r)) [] (partitionsOf ds (name r))
      else partitionsOf ds (name r))"

section \<open>enroll and log\<close>

text \<open>
  The later revision keeps a list of enroll secrets and the list of their digests:
  \<^verbatim>\<open>
  const enrollSecrets = process.env.ENROLL_SECRETS || '';
  const ENROLL_SECRETS = [], NODE_KEYS = [];
  enrollSecrets.split(',').forEach(secret => {
    const trimmed = secret.trim();
    ENROLL_SECRETS.push(trimmed);
    NODE_KEYS.push(crypto.createHash('sha256').update(trimmed).digest('hex'));
  });
  \<close>
  The SHA-256 hex digest is a built-in of the platform and is the parameter \<open>sha256\<close>;
  \<open>enrollSecrets\<close> is the value of the environment variable, empty when it is not set.
  \<open>splitOn\<close> is \<^verbatim>\<open>split\<close> for a separator of one character, \<open>indexOf\<close> is
  \<^verbatim>\<open>Array.prototype.indexOf\<close> on an array of strings, which compares with \<^verbatim>\<open>===\<close>.
\<close>

fun splitOn :: "char \<Rightarrow> string \<Rightarrow> string list" where
  "splitOn c [] = [[]]"
| "splitOn c (x # xs) =
     (if x = c then [] # splitOn c xs
      else (case splitOn c xs of [] \<Rightarrow> [[x]] | w # ws \<Rightarrow> (x # w) # ws))"

definition ENROLL_SECRETS :: "string \<Rightarrow> string list" where
  "ENROLL_SECRETS enrollSecrets = map trim (splitOn CHR '','' enrollSecrets)"

definition NODE_KEYS :: "(string \<Rightarrow> string) \<Rightarrow> string \<Rightarrow> string list" where
  "NODE_KEYS sha256 enrollSecrets =
     map (\<lambda>secret. sha256 (trim secret)) (splitOn CHR '','' enrollSecrets)"

fun indexOf :: "string list \<Rightarrow> jsval \<Rightarrow> int" where
  "indexOf [] v = - 1"
| "indexOf (x # xs) v =
     (if v = JStr x then 0 else (let i = indexOf xs v in if i < 0 then - 1 else i + 1))"

text \<open>
  A response: its status code and the object that \<^verbatim>\<open>JSON.stringify\<close> turns into its body.
  \<^verbatim>\<open>
  function enroll(body) {
    if (!body.enroll_secret || ENROLL_SECRETS.indexOf(body.enroll_secret) < 0) {
      console.error('Invalid enroll secret');
      return ERROR;
    }
    const node_key = crypto.createHash('sha256').update(body.enroll_secret).digest('hex');
    return {statusCode: 200, body: JSON.stringify({node_key, node_invalid: false})};
  }
  \<close>
  Past the test \<^verbatim>\<open>body.enroll_secret\<close> is one of the strings of the list; \<open>stringOf\<close> reads
  it.
\<close>

record response =
  statusCode :: nat
  body :: "jsval option"

definition OK :: response where
  "OK = \<lparr>statusCode = 200, body = None\<rparr>"

definition ERROR :: response where
  "ERROR = \<lparr>statusCode = 500, body = None\<rparr>"

fun stringOf :: "jsval \<Rightarrow> string" where
  "stringOf (JStr s) = s"
| "stringOf v = []"

definition enroll :: "(string \<Rightarrow> string) \<Rightarrow> string \<Rightarrow> obj \<Rightarrow> response" where
  "enroll sha256 enrollSecrets request =
     (if \<not> truthy (get_prop request ''enroll_secret'')
         \<or> indexOf (ENROLL_SECRETS enrollSecrets) (get_prop request ''enroll_secret'') < 0
      then ERROR
      else (let node_key = sha256 (stringOf (get_prop request ''enroll_secret''))
            in \<lparr>statusCode = 200,
                body = Some (JObj [(''node_key'', JStr node_key),
                                   (''node_invalid'', JBool False)])\<rparr>))"

text \<open>
  \<^verbatim>\<open>log\<close>, up to the branch it takes: one constructor for each \<^verbatim>\<open>return\<close> of the
  function, and \<open>logResponse\<close> for the response of the branch. \<open>ResultProcessed\<close> stands
  for \<^verbatim>\<open>parseResult\<close>, \<^verbatim>\<open>processRules\<close> and \<^verbatim>\<open>uploadToS3\<close> on \<^verbatim>\<open>body.data\<close>, followed by
  \<^verbatim>\<open>OK\<close>.
  \<^verbatim>\<open>
  if (!body.node_key || NODE_KEYS.indexOf(body.node_key) < 0) {
    console.error('Invalid node key:', body.node_key);
    return ERROR;
  }
  if (!body.log_type || !body.data) {
    console.error('Invalid log data:', ...);
    return ERROR;
  }
  if (body.log_type === 'status') { logStatus(body.data); return OK; }
  else if (body.log_type === 'snapshot') { return OK; }
  else if (body.log_type === 'result') { data = parseResult(body.data); }
  else { return ERROR; }
  await Promise.all([processRules(data), uploadToS3(data)]);
  return OK;
  \<close>
\<close>

datatype log_outcome =
    InvalidNodeKey
  | InvalidLogData
  | StatusLogged
  | SnapshotIgnored
  | ResultProcessed
  | UnknownLogType

definition log :: "(string \<Rightarrow> string) \<Rightarrow> string \<Rightarrow> obj \<Rightarrow> log_outcome" where
  "log sha256 enrollSecrets request =
     (if \<not> truthy (get_prop request ''node_key'')
         \<or> indexOf (NODE_KEYS sha256 enrollSecrets) (get_prop request ''node_key'') < 0
      then InvalidNodeKey
      else if \<not> truthy (get_prop request ''log_type'') \<or> \<not> truthy (get_prop request ''data'')
      then InvalidLogData
      else if get_prop request ''log_type'' = JStr ''status'' then StatusLogged
      else if get_prop request ''log_type'' = JStr ''snapshot'' then SnapshotIgnored
      else if get_prop request ''log_type'' = JStr ''result'' then ResultProcessed
      else UnknownLogType)"

fun logResponse :: "log_outcome \<Rightarrow> response" where
  "logResponse InvalidNodeKey = ERROR"
| "logResponse InvalidLogData = ERROR"
| "logResponse StatusLogged = OK"
| "logResponse SnapshotIgnored = OK"
| "logResponse ResultProcessed = OK"
| "logResponse UnknownLogType = ERROR"

section \<open>parseResult on a store of objects\<close>

text \<open>
  Whether \<^verbatim>\<open>parseResult\<close> changes its input depends on which objects the rows are. Here
  the objects live in a store: a list of objects, the address of an object being its
  position. A record of the batch holds the address of its \<^verbatim>\<open>columns\<close> object, and the
  dataset holds the addresses of the rows. \<open>load\<close> reads a record with its columns from
  the store, \<open>rowsOfRefs\<close> reads the rows of a dataset of addresses, and \<open>refsBelow n\<close>
  says that every address of a dataset is below \<open>n\<close>.
\<close>

type_synonym addr = nat
type_synonym heap = "obj list"

record stored =
  nameOf :: string
  calendarTimeOf :: jsval
  unixTimeOf :: num
  actionOf :: jsval
  columnsAt :: addr

definition load :: "heap \<Rightarrow> stored \<Rightarrow> incoming" where
  "load h r =
     \<lparr>name = nameOf r, calendarTime = calendarTimeOf r, unixTime = unixTimeOf r,
      action = actionOf r, columns = h ! columnsAt r\<rparr>"

type_synonym refs = "(string \<times> (string \<times> addr list) list) list"

definition rowsOfRefs :: "heap \<Rightarrow> refs \<Rightarrow> dataset" where
  "rowsOfRefs h tbls =
     map (\<lambda>(n, p). (n, map (\<lambda>(d, rows). (d, map (\<lambda>a. h ! a) rows)) p)) tbls"

definition refsBelow :: "nat \<Rightarrow> refs \<Rightarrow> bool" where
  "refsBelow n tbls \<longleftrightarrow>
     (\<forall>t p d rows a. (t, p) \<in> set tbls \<and> (d, rows) \<in> set p \<and> a \<in> set rows \<longrightarrow> a < n)"

text \<open>
  The push of a row's address into the bucket of a record, as in \<open>addRow\<close>: for a plain
  name of the record. The objects of the platform that the program writes into for the
  other names are not in the store.
\<close>

definition pushRow :: "stored \<Rightarrow> addr \<Rightarrow> refs \<Rightarrow> refs" where
  "pushRow record row tbls =
     (let day = getDay (unixTimeOf record);
          partitions = (case map_of tbls (nameOf record) of None \<Rightarrow> [] | Some p \<Rightarrow> p);
          partitions = (if map_of partitions day = None then put day [] partitions
                        else partitions)
      in put (nameOf record)
           (put day ((case map_of partitions day of None \<Rightarrow> [] | Some rows \<Rightarrow> rows) @ [row])
              partitions) tbls)"

text \<open>
  The later revision: the row is a new object, allocated at the end of the store, and
  the columns are read from the record's \<^verbatim>\<open>columns\<close> object and written into the row. An
  exception ends the function with the store as it is then.
\<close>

fun copyColumnsAt :: "(string \<Rightarrow> jsval option) \<Rightarrow> addr \<Rightarrow> string list \<Rightarrow> addr \<Rightarrow> heap
    \<Rightarrow> error option \<times> heap" where
  "copyColumnsAt parse cols [] row h = (None, h)"
| "copyColumnsAt parse cols (key # ks) row h =
     (case normalize parse (get_prop (h ! cols) key) of
        Inl e \<Rightarrow> (Some e, h)
      | Inr v \<Rightarrow> copyColumnsAt parse cols ks row (h[row := assign key v (h ! row)]))"

definition makeRowAt :: "(string \<Rightarrow> jsval option) \<Rightarrow> stored \<Rightarrow> heap \<Rightarrow> (error + addr) \<times> heap" where
  "makeRowAt parse record h =
     (let row = length h;
          h = h @ [newRow (load h record)]
      in case copyColumnsAt parse (columnsAt record) (keys (h ! columnsAt record)) row h of
           (Some e, h') \<Rightarrow> (Inl e, h')
         | (None, h') \<Rightarrow> (Inr row, h'))"

fun parseLoopAt :: "(string \<Rightarrow> jsval option) \<Rightarrow> stored list \<Rightarrow> refs \<Rightarrow> heap
    \<Rightarrow> (error + refs) \<times> heap" where
  "parseLoopAt parse [] tbls h = (Inr tbls, h)"
| "parseLoopAt parse (record # rest) tbls h =
     (case makeRowAt parse record h of
        (Inl e, h') \<Rightarrow> (Inl e, h')
      | (Inr row, h') \<Rightarrow> parseLoopAt parse rest (pushRow record row tbls) h')"

definition parseResultAt :: "(string \<Rightarrow> jsval option) \<Rightarrow> stored list \<Rightarrow> heap
    \<Rightarrow> (error + refs) \<times> heap" where
  "parseResultAt parse data h = parseLoopAt parse data [] h"

text \<open>
  The earlier revision: the row is the record's \<^verbatim>\<open>columns\<close> object itself, and the
  reserved keys are written into it. Nothing is parsed and nothing raises.
  \<^verbatim>\<open>
  const row = record.columns;
  row.calendarTime = record.calendarTime;
  row.unixTime = record.unixTime;
  row.added = record.action === 'added';
  partitions[day].push(row);
  \<close>
\<close>

definition oldRowAt :: "stored \<Rightarrow> heap \<Rightarrow> addr \<times> heap" where
  "oldRowAt record h =
     (let row = columnsAt record;
          h = h[row := put ''calendarTime'' (calendarTimeOf record) (h ! row)];
          h = h[row := put ''unixTime'' (num_val (unixTimeOf record)) (h ! row)];
          h = h[row := put ''added'' (JBool (actionOf record = JStr ''added'')) (h ! row)]
      in (row, h))"

fun parseLoopOld :: "stored list \<Rightarrow> refs \<Rightarrow> heap \<Rightarrow> refs \<times> heap" where
  "parseLoopOld [] tbls h = (tbls, h)"
| "parseLoopOld (record # rest) tbls h =
     (case oldRowAt record h of
        (row, h') \<Rightarrow> parseLoopOld rest (pushRow record row tbls) h')"

definition parseResultOld :: "stored list \<Rightarrow> heap \<Rightarrow> refs \<times> heap" where
  "parseResultOld data h = parseLoopOld data [] h"

section \<open>Sample inputs\<close>






definition podSecurity :: rule_group where
  "podSecurity =
     \<lparr>tables = [''pods'', ''containers''],
      rules = [(''privileged'', JStr ''p1''), (''host_pid'', JStr ''h1'')]\<rparr>"

definition podNetwork :: rule_group where
  "podNetwork =
     \<lparr>tables = [''pods''],
      rules = [(''host_pid'', JStr ''h2''), (''host_ipc'', JStr ''i2'')]\<rparr>"

definition rulesFile1 :: document where
  "rulesFile1 = [(''pod_security'', podSecurity)]"

definition rulesFile2 :: document where
  "rulesFile2 = [(''pod_network'', podNetwork)]"

text \<open>A rule file whose only rule is named \<^verbatim>\<open>__proto__\<close>.\<close>

definition podProto :: rule_group where
  "podProto =
     \<lparr>tables = [''kubernetes_pods''],
      rules = [(''__proto__'', JObj [(''=='', JArr [JObj [(''var'', JStr ''privileged'')], JStr ''1''])])]\<rparr>"

definition rulesFile3 :: document where
  "rulesFile3 = [(''pod_proto'', podProto)]"

text \<open>
  \<^verbatim>\<open>JSON.parse\<close> on the strings that the samples hand to it; every other string is
  rejected. The samples hand it no other string that is JSON.
\<close>

definition sampleParse :: "string \<Rightarrow> jsval option" where
  \<open>sampleParse = map_of
     [(''{"a":1}'', JObj [(''a'', JNum 1)]),
      ('' {}'', JObj []),
      (''[1]'', JArr [JNum 1])]\<close>

definition eventAdded :: incoming where
  \<open>eventAdded =
     \<lparr>name = ''kubernetes_events'', calendarTime = JStr ''Sat May  8 00:44:15 2021 UTC'',
      unixTime = Some 1620434655, action = JStr ''added'',
      columns = [(''abc'', JStr ''def''), (''labels'', JStr ''{"a":1}'')]\<rparr>\<close>

definition eventSameDay :: incoming where
  "eventSameDay =
     \<lparr>name = ''kubernetes_events'', calendarTime = JStr ''Sat May  8 23:59:59 2021 UTC'',
      unixTime = Some 1620518399, action = JStr ''added'',
      columns = [(''abc'', JStr ''ghi'')]\<rparr>"

definition eventNextDay :: incoming where
  "eventNextDay =
     \<lparr>name = ''kubernetes_events'', calendarTime = JStr ''Sun May  9 00:00:00 2021 UTC'',
      unixTime = Some 1620518400, action = JStr ''removed'',
      columns = [(''abc'', JStr ''xyz'')]\<rparr>"

definition podEvent :: incoming where
  "podEvent =
     \<lparr>name = ''kubernetes_pods'', calendarTime = JStr ''Sat May  8 00:44:15 2021 UTC'',
      unixTime = Some 1620434655, action = JStr ''added'',
      columns = [(''privileged'', JStr ''1'')]\<rparr>"

definition eventBadJson :: incoming where
  "eventBadJson =
     \<lparr>name = ''kubernetes_events'', calendarTime = JStr ''Sat May  8 00:44:15 2021 UTC'',
      unixTime = Some 1620434655, action = JStr ''added'',
      columns = [(''labels'', JStr ''{bad}'')]\<rparr>"

definition eventNoTime :: incoming where
  "eventNoTime =
     \<lparr>name = ''kubernetes_events'', calendarTime = JUndefined,
      unixTime = None, action = JStr ''added'',
      columns = [(''abc'', JStr ''def'')]\<rparr>"

definition eventReserved :: incoming where
  "eventReserved =
     \<lparr>name = ''kubernetes_events'', calendarTime = JStr ''Sat May  8 00:44:15 2021 UTC'',
      unixTime = Some 1620434655, action = JStr ''added'',
      columns = [(''calendarTime'', JStr ''now''), (''added'', JStr [])]\<rparr>"

text \<open>
  A record with a column value that is a number, and a record with a column named
  \<^verbatim>\<open>__proto__\<close>.
\<close>

definition eventNumber :: incoming where
  "eventNumber =
     \<lparr>name = ''kubernetes_pods'', calendarTime = JStr ''Sat May  8 00:44:15 2021 UTC'',
      unixTime = Some 1620434655, action = JStr ''added'',
      columns = [(''uid'', JStr ''web''), (''restart_count'', JNum 3)]\<rparr>"

definition eventProto :: incoming where
  \<open>eventProto =
     \<lparr>name = ''kubernetes_pods'', calendarTime = JStr ''Sat May  8 00:44:15 2021 UTC'',
      unixTime = Some 1620434655, action = JStr ''added'',
      columns = [(''__proto__'', JStr ''{"a":1}''), (''abc'', JStr ''def'')]\<rparr>\<close>

text \<open>A stand-in for the digest at the samples: never empty, different for different secrets.\<close>

definition sampleDigest :: "string \<Rightarrow> string" where
  "sampleDigest s = ''sha256:'' @ s"

definition storedAdded :: stored where
  "storedAdded =
     \<lparr>nameOf = ''kubernetes_events'', calendarTimeOf = JStr ''Sat May  8 00:44:15 2021 UTC'',
      unixTimeOf = Some 1620434655, actionOf = JStr ''added'', columnsAt = 0\<rparr>"

definition storedSameDay :: stored where
  "storedSameDay =
     \<lparr>nameOf = ''kubernetes_events'', calendarTimeOf = JStr ''Sat May  8 23:59:59 2021 UTC'',
      unixTimeOf = Some 1620518399, actionOf = JStr ''added'', columnsAt = 1\<rparr>"

definition storedReserved :: stored where
  "storedReserved =
     \<lparr>nameOf = ''kubernetes_events'', calendarTimeOf = JStr ''Sat May  8 00:44:15 2021 UTC'',
      unixTimeOf = Some 1620434655, actionOf = JStr ''added'', columnsAt = 0\<rparr>"

definition sampleHeap :: heap where
  "sampleHeap = [columns eventAdded, columns eventSameDay]"

section \<open>Properties\<close>

subsection \<open>Objects\<close>

lemma in_keys_iff: "k \<in> set (keys ob) \<longleftrightarrow> (\<exists>v. map_of ob k = Some v)"
proof -
  have "k \<in> fst ` set ob \<longleftrightarrow> map_of ob k \<noteq> None"
    by (simp add: map_of_eq_None_iff)
  then show ?thesis by (simp add: keys_def)
qed



subsection \<open>The Rule Evaluator\<close>







subsection \<open>The Rule Catalog Loader\<close>

lemma map_of_put: "map_of (put k v ob) = (map_of ob)(k \<mapsto> v)"
  by (induction ob) (auto simp: fun_eq_iff)

lemma set_keys: "set (keys ob) = fst ` set ob"
  by (simp add: keys_def)

lemma keys_put: "set (keys (put k v ob)) = insert k (set (keys ob))"
  by (induction ob) (auto simp: set_keys)

lemma map_of_assign:
  "map_of (assign k v ob) = (if k = ''__proto__'' then map_of ob else (map_of ob)(k \<mapsto> v))"
  by (simp add: assign_def map_of_put)

lemma keys_assign:
  "set (keys (assign k v ob)) =
     (if k = ''__proto__'' then set (keys ob) else insert k (set (keys ob)))"
  by (simp add: assign_def keys_put)

lemma copy_props:
  "set ks \<subseteq> dom (map_of src) \<Longrightarrow>
   map_of (fold (\<lambda>k tr. assign k (get_prop src k) tr) ks tr)
     = map_of tr ++ (map_of src |` (set ks - {''__proto__''}))"
proof (induction ks arbitrary: tr)
  case Nil
  then show ?case by simp
next
  case (Cons k ks)
  from Cons.prems obtain v where v: "map_of src k = Some v" by auto
  have ih: "map_of (fold (\<lambda>k tr. assign k (get_prop src k) tr) ks (assign k v tr))
        = map_of (assign k v tr) ++ (map_of src |` (set ks - {''__proto__''}))"
    using Cons.prems by (intro Cons.IH) simp
  show ?case
  proof (cases "k = ''__proto__''")
    case True
    then have "set (k # ks) - {''__proto__''} = set ks - {''__proto__''}" by auto
    with ih True v show ?thesis by (simp add: get_prop_def assign_def)
  next
    case False
    with ih v show ?thesis
      by (auto simp: get_prop_def map_of_assign fun_eq_iff map_add_def restrict_map_def
            split: option.splits)
  qed
qed

lemma map_of_mergeRules:
  "map_of (mergeRules gr tr) = map_of tr ++ (map_of gr |` (- {''__proto__''}))"
proof -
  have sub: "set (keys gr) \<subseteq> dom (map_of gr)"
    by (auto simp: in_keys_iff)
  have "map_of gr |` (set (keys gr) - {''__proto__''}) = map_of gr |` (- {''__proto__''})"
  proof
    fix x show "(map_of gr |` (set (keys gr) - {''__proto__''})) x
        = (map_of gr |` (- {''__proto__''})) x"
      by (cases "map_of gr x") (auto simp: restrict_map_def in_keys_iff)
  qed
  with copy_props[OF sub, of tr] show ?thesis by (simp add: mergeRules_def)
qed

lemma restrict_plain:
  "''__proto__'' \<notin> set (keys gr) \<Longrightarrow> map_of gr |` (- {''__proto__''}) = map_of gr"
proof
  fix x assume "''__proto__'' \<notin> set (keys gr)"
  then show "(map_of gr |` (- {''__proto__''})) x = map_of gr x"
    by (cases "map_of gr x") (auto simp: restrict_map_def in_keys_iff)
qed

lemma tableRulesOf_addTable:
  "tableRulesOf (addTable grp t rs) t' =
     (if t' = t then tableRulesOf rs t ++ (map_of (rules grp) |` (- {''__proto__''}))
      else tableRulesOf rs t')"
  by (auto simp: tableRulesOf_def addTable_def Let_def map_of_put map_of_mergeRules split: option.splits)

lemma keys_addTable: "set (keys (addTable grp t rs)) = insert t (set (keys rs))"
  by (simp add: addTable_def Let_def keys_put)

lemma keys_fold_addTable: "set (keys (fold (addTable grp) ts rs)) = set ts \<union> set (keys rs)"
  by (induction ts arbitrary: rs) (auto simp: keys_addTable)

lemma tableRulesOf_fold_addTable:
  "tableRulesOf (fold (addTable grp) ts rs) t =
     (if t \<in> set ts then tableRulesOf rs t ++ (map_of (rules grp) |` (- {''__proto__''}))
      else tableRulesOf rs t)"
proof (induction ts arbitrary: rs)
  case Nil
  then show ?case by simp
next
  case (Cons a ts)
  have idem: "m ++ r ++ r = m ++ r" for m r :: "string \<rightharpoonup> jsval"
    by (auto simp: map_add_def fun_eq_iff split: option.splits)
  show ?case by (simp add: Cons.IH tableRulesOf_addTable idem)
qed

lemma tableRulesOf_addGroup:
  "''__proto__'' \<notin> set (keys (rules grp)) \<Longrightarrow>
   tableRulesOf (addGroup grp rs) t = mergeStep t (tableRulesOf rs t) grp"
  by (simp add: addGroup_def tableRulesOf_fold_addTable mergeStep_def restrict_plain)

lemma keys_addGroup: "set (keys (addGroup grp rs)) = set (tables grp) \<union> set (keys rs)"
  by (simp add: addGroup_def keys_fold_addTable)

lemma addFile_groups: "addFile parsed rs = fold addGroup (fileGroups parsed) rs"
proof -
  have "fold (\<lambda>groupName rs'. case map_of parsed groupName of None \<Rightarrow> rs' | Some grp \<Rightarrow> addGroup grp rs') ks rs
      = fold addGroup (concat (map (\<lambda>groupName. case map_of parsed groupName of None \<Rightarrow> [] | Some grp \<Rightarrow> [grp]) ks)) rs" for ks
    by (induction ks arbitrary: rs) (auto split: option.splits)
  then show ?thesis by (simp add: addFile_def fileGroups_def)
qed

lemma fold_addFile: "fold addFile files rs = fold addGroup (allGroups files) rs"
  by (induction files arbitrary: rs) (auto simp: allGroups_def addFile_groups)

lemma getRules_groups: "getRules files = fold addGroup (allGroups files) []"
  by (simp add: getRules_def fold_addFile)

lemma keys_fold_addGroup:
  "set (keys (fold addGroup gs rs)) = (\<Union>grp\<in>set gs. set (tables grp)) \<union> set (keys rs)"
  by (induction gs arbitrary: rs) (auto simp: keys_addGroup)

lemma tableRulesOf_fold_addGroup:
  "\<forall>grp\<in>set gs. ''__proto__'' \<notin> set (keys (rules grp)) \<Longrightarrow>
   tableRulesOf (fold addGroup gs rs) t = foldl (mergeStep t) (tableRulesOf rs t) gs"
  by (induction gs arbitrary: rs) (auto simp: tableRulesOf_addGroup)

lemma tableRulesOf_getRules:
  assumes "\<forall>grp\<in>set (allGroups files). ''__proto__'' \<notin> set (keys (rules grp))"
  shows "tableRulesOf (getRules files) t = mergedRules (allGroups files) t"
proof -
  have "tableRulesOf [] t = Map.empty" by (simp add: tableRulesOf_def)
  then show ?thesis
    using assms by (simp add: getRules_groups tableRulesOf_fold_addGroup mergedRules_def)
qed

lemma keys_getRules:
  "set (keys (getRules files)) = (\<Union>grp\<in>set (allGroups files). set (tables grp))"
proof -
  have "set (keys ([] :: catalog)) = {}" by (simp add: keys_def)
  then show ?thesis by (simp add: getRules_groups keys_fold_addGroup)
qed


lemma mergedRules_append:
  "mergedRules (gs1 @ gs2) t = foldl (mergeStep t) (mergedRules gs1 t) gs2"
  by (simp add: mergedRules_def)

lemma foldl_mergeStep_keep:
  "(\<forall>g'\<in>set gs. t \<in> set (tables g') \<longrightarrow> map_of (rules g') r = None) \<Longrightarrow>
   foldl (mergeStep t) m gs r = m r"
  by (induction gs arbitrary: m) (auto simp: mergeStep_def map_add_def)

lemma foldl_mergeStep_dom:
  "r \<in> dom m \<or> (\<exists>grp\<in>set gs. t \<in> set (tables grp) \<and> r \<in> dom (map_of (rules grp))) \<Longrightarrow>
   r \<in> dom (foldl (mergeStep t) m gs)"
proof (induction gs arbitrary: m)
  case Nil
  then show ?case by simp
next
  case (Cons g gs)
  have "r \<in> dom (mergeStep t m g) \<or>
        (\<exists>grp\<in>set gs. t \<in> set (tables grp) \<and> r \<in> dom (map_of (rules grp)))"
    using Cons.prems by (auto simp: mergeStep_def)
  then show ?case by (simp add: Cons.IH)
qed

lemma mergedRules_last:
  assumes "gs = gs1 @ grp # gs2" "t \<in> set (tables grp)" "map_of (rules grp) r = Some e"
    and "\<forall>g'\<in>set gs2. t \<in> set (tables g') \<longrightarrow> map_of (rules g') r = None"
  shows "mergedRules gs t r = Some e"
proof -
  have "mergedRules gs t r = foldl (mergeStep t) (mergeStep t (mergedRules gs1 t) grp) gs2 r"
    using assms(1) by (simp add: mergedRules_def)
  also have "\<dots> = mergeStep t (mergedRules gs1 t) grp r"
    using assms(4) by (rule foldl_mergeStep_keep)
  also have "\<dots> = Some e"
    using assms(2,3) by (simp add: mergeStep_def)
  finally show ?thesis .
qed

lemma mergedRules_present:
  assumes "grp \<in> set gs" "t \<in> set (tables grp)" "map_of (rules grp) r = Some e"
  shows "r \<in> dom (mergedRules gs t)"
  unfolding mergedRules_def using assms by (intro foldl_mergeStep_dom) auto

lemma tableRulesOf_Some: "map_of rs t = Some tr \<Longrightarrow> tableRulesOf rs t = map_of tr"
  by (simp add: tableRulesOf_def)

lemma getRules_nonempty:
  assumes plain: "\<forall>grp\<in>set (allGroups files). ''__proto__'' \<notin> set (keys (rules grp))"
    and ne: "\<forall>grp\<in>set (allGroups files). rules grp \<noteq> []"
    and tr: "map_of (getRules files) t = Some tr"
  shows "tr \<noteq> []"
proof -
  from tr have "t \<in> set (keys (getRules files))" by (auto simp: in_keys_iff)
  then obtain grp where g: "grp \<in> set (allGroups files)" "t \<in> set (tables grp)"
    by (auto simp: keys_getRules)
  with ne obtain r e rest where "rules grp = (r, e) # rest"
    by (cases "rules grp") auto
  then have "map_of (rules grp) r = Some e" by simp
  with g have "r \<in> dom (mergedRules (allGroups files) t)" by (rule mergedRules_present)
  then have "r \<in> dom (map_of tr)"
    using tr by (simp add: tableRulesOf_getRules[OF plain, symmetric] tableRulesOf_Some)
  then show ?thesis by auto
qed

lemma getRules_sample:
  "getRules [rulesFile1, rulesFile2] =
     [(''pods'', [(''privileged'', JStr ''p1''), (''host_pid'', JStr ''h2''),
                  (''host_ipc'', JStr ''i2'')]),
      (''containers'', [(''privileged'', JStr ''p1''), (''host_pid'', JStr ''h1'')])]"
  by (simp add: getRules_def addFile_def addGroup_def addTable_def mergeRules_def keys_def
        get_prop_def assign_def rulesFile1_def rulesFile2_def podSecurity_def podNetwork_def)

lemma allGroups_sample: "allGroups [rulesFile1, rulesFile2] = [podSecurity, podNetwork]"
  by (simp add: allGroups_def fileGroups_def keys_def rulesFile1_def rulesFile2_def)

text \<open>
  The catalog of rule files whose table names are plain and that name no rule
  \<^verbatim>\<open>__proto__\<close>. Its keys are exactly the table names in the \<^verbatim>\<open>tables\<close> list of some group.
  Each key maps to the merge of the rules of the groups that name it, in the order of
  loading. So the rules of a key are not empty when no group has empty rules, every rule
  name of a group that names the table is present, and the expression of a rule name is
  that of the last group that names the table and has the rule name.
\<close>

lemma getRules_catalog:
  assumes tbls: "\<forall>grp\<in>set (allGroups files). \<forall>t\<in>set (tables grp). plainName t"
    and rls: "\<forall>grp\<in>set (allGroups files). ''__proto__'' \<notin> set (keys (rules grp))"
  shows "set (keys (getRules files)) = (\<Union>grp\<in>set (allGroups files). set (tables grp))"
    and "\<forall>t tr. map_of (getRules files) t = Some tr \<longrightarrow>
           map_of tr = mergedRules (allGroups files) t"
    and "(\<forall>grp\<in>set (allGroups files). rules grp \<noteq> []) \<longrightarrow>
           (\<forall>t tr. map_of (getRules files) t = Some tr \<longrightarrow> tr \<noteq> [])"
    and "\<forall>grp t r e. grp \<in> set (allGroups files) \<and> t \<in> set (tables grp)
             \<and> map_of (rules grp) r = Some e \<longrightarrow>
           r \<in> dom (tableRulesOf (getRules files) t)"
    and "\<forall>gs1 grp gs2 t r e. allGroups files = gs1 @ grp # gs2 \<and> t \<in> set (tables grp)
             \<and> map_of (rules grp) r = Some e
             \<and> (\<forall>g'\<in>set gs2. t \<in> set (tables g') \<longrightarrow> map_of (rules g') r = None) \<longrightarrow>
           tableRulesOf (getRules files) t r = Some e"
proof -
  note merged = tableRulesOf_getRules[OF rls]
  show "set (keys (getRules files)) = (\<Union>grp\<in>set (allGroups files). set (tables grp))"
    by (rule keys_getRules)
  show "\<forall>t tr. map_of (getRules files) t = Some tr \<longrightarrow>
           map_of tr = mergedRules (allGroups files) t"
    by (simp add: merged[symmetric] tableRulesOf_Some)
  show "(\<forall>grp\<in>set (allGroups files). rules grp \<noteq> []) \<longrightarrow>
           (\<forall>t tr. map_of (getRules files) t = Some tr \<longrightarrow> tr \<noteq> [])"
    using getRules_nonempty[OF rls] by blast
  show "\<forall>grp t r e. grp \<in> set (allGroups files) \<and> t \<in> set (tables grp)
             \<and> map_of (rules grp) r = Some e \<longrightarrow>
           r \<in> dom (tableRulesOf (getRules files) t)"
  proof (intro allI impI)
    fix grp t r e
    assume "grp \<in> set (allGroups files) \<and> t \<in> set (tables grp)
             \<and> map_of (rules grp) r = Some e"
    then show "r \<in> dom (tableRulesOf (getRules files) t)"
      unfolding merged by (elim conjE) (rule mergedRules_present)
  qed
  show "\<forall>gs1 grp gs2 t r e. allGroups files = gs1 @ grp # gs2 \<and> t \<in> set (tables grp)
             \<and> map_of (rules grp) r = Some e
             \<and> (\<forall>g'\<in>set gs2. t \<in> set (tables g') \<longrightarrow> map_of (rules g') r = None) \<longrightarrow>
           tableRulesOf (getRules files) t r = Some e"
  proof (intro allI impI)
    fix gs1 grp gs2 t r e
    assume "allGroups files = gs1 @ grp # gs2 \<and> t \<in> set (tables grp)
             \<and> map_of (rules grp) r = Some e
             \<and> (\<forall>g'\<in>set gs2. t \<in> set (tables g') \<longrightarrow> map_of (rules g') r = None)"
    then show "tableRulesOf (getRules files) t r = Some e"
      unfolding merged by (elim conjE) (rule mergedRules_last)
  qed
qed

lemma plain_samples:
  "plainName ''pods''" "plainName ''containers''" "plainName ''kubernetes_events''"
  "plainName ''kubernetes_pods''"
  by (simp_all add: plainName_def objectPrototype_def)

lemma getRules_catalog_sample:
  "set (keys (getRules [rulesFile1, rulesFile2])) = {''pods'', ''containers''}"
  "map_of [(''privileged'', JStr ''p1''), (''host_pid'', JStr ''h2''),
              (''host_ipc'', JStr ''i2'')]
       = mergedRules (allGroups [rulesFile1, rulesFile2]) ''pods''"
  "tableRulesOf (getRules [rulesFile1, rulesFile2]) ''pods'' ''host_pid'' = Some (JStr ''h2'')"
proof -
  let ?files = "[rulesFile1, rulesFile2]"
  let ?pods = "[(''privileged'', JStr ''p1''), (''host_pid'', JStr ''h2''),
                (''host_ipc'', JStr ''i2'')]"
  have tbls: "\<forall>grp\<in>set (allGroups ?files). \<forall>t\<in>set (tables grp). plainName t"
    by (simp add: allGroups_sample podSecurity_def podNetwork_def plain_samples)
  have rls: "\<forall>grp\<in>set (allGroups ?files). ''__proto__'' \<notin> set (keys (rules grp))"
    by (simp add: allGroups_sample podSecurity_def podNetwork_def keys_def)
  note catalog = getRules_catalog[OF tbls rls]
  show "set (keys (getRules ?files)) = {''pods'', ''containers''}"
    using catalog(1) by (auto simp: allGroups_sample podSecurity_def podNetwork_def)
  have pods: "map_of (getRules ?files) ''pods'' = Some ?pods"
    by (simp add: getRules_sample)
  with catalog(2) show "map_of ?pods = mergedRules (allGroups ?files) ''pods''"
    by blast
  have g2: "allGroups ?files = [podSecurity] @ podNetwork # []"
    "''pods'' \<in> set (tables podNetwork)"
    "map_of (rules podNetwork) ''host_pid'' = Some (JStr ''h2'')"
    by (simp_all add: allGroups_sample podNetwork_def)
  have "\<forall>g'\<in>set []. ''pods'' \<in> set (tables g') \<longrightarrow> map_of (rules g') ''host_pid'' = None"
    by simp
  with catalog(5) g2 show "tableRulesOf (getRules ?files) ''pods'' ''host_pid'' = Some (JStr ''h2'')"
    by blast
qed

text \<open>
  Claim C7. The catalog does not hold every rule of the groups. \<open>rulesFile3\<close> is a rule
  file with one group for the table \<^verbatim>\<open>kubernetes_pods\<close>, whose only rule is named
  \<^verbatim>\<open>__proto__\<close>. The rules of the group are not empty and their merge holds the rule, but
  in the catalog that \<^verbatim>\<open>getRules\<close> returns the table has no rule: the write
  \<^verbatim>\<open>tableRules['__proto__'] = ...\<close> has called the setter of \<^verbatim>\<open>Object.prototype\<close> and
  stored nothing.
\<close>

theorem getRules_drops_proto_rule:
  "getRules [rulesFile3] = [(''kubernetes_pods'', [])]
   \<and> allGroups [rulesFile3] = [podProto]
   \<and> tables podProto = [''kubernetes_pods'']
   \<and> rules podProto \<noteq> []
   \<and> mergedRules (allGroups [rulesFile3]) ''kubernetes_pods'' ''__proto__''
       = Some (JObj [(''=='', JArr [JObj [(''var'', JStr ''privileged'')], JStr ''1''])])
   \<and> tableRulesOf (getRules [rulesFile3]) ''kubernetes_pods'' ''__proto__'' = None"
proof -
  have g: "getRules [rulesFile3] = [(''kubernetes_pods'', [])]"
    by (simp add: getRules_def addFile_def addGroup_def addTable_def mergeRules_def keys_def
          get_prop_def assign_def rulesFile3_def podProto_def)
  have a: "allGroups [rulesFile3] = [podProto]"
    by (simp add: allGroups_def fileGroups_def keys_def rulesFile3_def)
  show ?thesis
    unfolding g a
    by (simp add: podProto_def mergedRules_def mergeStep_def tableRulesOf_def)
qed

subsection \<open>The Field Normalizer\<close>

lemma charAt_first: "charAt s 0 = [c] \<longleftrightarrow> s \<noteq> [] \<and> hd s = c"
  by (cases s) (simp_all add: charAt_def)

lemma charAt_last: "charAt s (int (length s) - 1) = [c] \<longleftrightarrow> s \<noteq> [] \<and> last s = c"
proof (cases s rule: rev_cases)
  case Nil
  then show ?thesis by (simp add: charAt_def)
next
  case (snoc cs x)
  then show ?thesis by (simp add: charAt_def nth_append)
qed

lemma length_gt1: "s \<noteq> [] \<Longrightarrow> hd s \<noteq> last s \<Longrightarrow> 1 < length s"
  by (cases s) (auto split: if_splits)

lemma jsonShaped_string:
  "jsonShaped (JStr s) =
     Inr (s \<noteq> [] \<and> ((hd s = CHR ''{'' \<and> last s = CHR ''}'')
                    \<or> (hd s = CHR ''['' \<and> last s = CHR '']'')))"
proof -
  have "1 < length s" if "s \<noteq> []" "hd s = CHR ''{''" "last s = CHR ''}''"
    using that by (intro length_gt1) simp_all
  then show ?thesis
    by (auto simp: charAt_first charAt_last)
qed

lemma normalize_JStr:
  "normalize parse (JStr s) =
     (if s \<noteq> [] \<and> ((hd s = CHR ''{'' \<and> last s = CHR ''}'') \<or> (hd s = CHR ''['' \<and> last s = CHR '']''))
      then (case parse s of None \<Rightarrow> Inl SyntaxError | Some v \<Rightarrow> Inr v)
      else Inr (JStr s))"
proof -
  define shaped where "shaped \<longleftrightarrow>
    s \<noteq> [] \<and> ((hd s = CHR ''{'' \<and> last s = CHR ''}'') \<or> (hd s = CHR ''['' \<and> last s = CHR '']''))"
  have "jsonShaped (JStr s) = Inr shaped"
    unfolding shaped_def by (rule jsonShaped_string)
  then have "normalize parse (JStr s) =
     (if shaped then (case parse s of None \<Rightarrow> Inl SyntaxError | Some v \<Rightarrow> Inr v)
      else Inr (JStr s))"
    by (cases shaped) (simp_all add: normalize_def del: jsonShaped.simps)
  then show ?thesis unfolding shaped_def .
qed

text \<open>
  A value that is not a string raises: the test for brackets is outside the \<^verbatim>\<open>typeof\<close>
  guard.
\<close>

lemma normalize_not_string: "\<forall>s. value \<noteq> JStr s \<Longrightarrow> normalize parse value = Inl TypeError"
  by (cases "value") (simp_all add: normalize_def)

lemma normalize_number: "normalize parse (JNum n) = Inl TypeError"
  by (simp add: normalize_def)

lemma normalize_boolean: "normalize parse (JBool b) = Inl TypeError"
  by (simp add: normalize_def)

text \<open>
  Claim C2, as amended. For a column value that is a string: when its first character is
  \<^verbatim>\<open>{\<close> and its last \<^verbatim>\<open>}\<close>, or its first is \<^verbatim>\<open>[\<close> and its last \<^verbatim>\<open>]\<close> (the string as it is, not
  trimmed), the normalizer returns what \<^verbatim>\<open>JSON.parse\<close> returns for it and raises
  \<^verbatim>\<open>SyntaxError\<close> when \<^verbatim>\<open>JSON.parse\<close> does; every other string passes through unchanged
  and nothing is raised. So \<^verbatim>\<open>{"a":1}\<close> is parsed, and \<^verbatim>\<open>not-json\<close> and \<^verbatim>\<open>42\<close> stay strings.
\<close>

theorem normalize_string:
  \<open>normalize parse (JStr s) =
     (if s \<noteq> [] \<and> ((hd s = CHR ''{'' \<and> last s = CHR ''}'')
                    \<or> (hd s = CHR ''['' \<and> last s = CHR '']''))
      then (case parse s of None \<Rightarrow> Inl SyntaxError | Some v \<Rightarrow> Inr v)
      else Inr (JStr s))
   \<and> normalize parse (JStr ''{"a":1}'')
       = (case parse ''{"a":1}'' of None \<Rightarrow> Inl SyntaxError | Some v \<Rightarrow> Inr v)
   \<and> normalize parse (JStr ''not-json'') = Inr (JStr ''not-json'')
   \<and> normalize parse (JStr ''42'') = Inr (JStr ''42'')\<close>
  by (simp add: normalize_JStr)

theorem normalize_string_witness:
  \<open>normalize sampleParse (JStr ''{"a":1}'') = Inr (JObj [(''a'', JNum 1)])
   \<and> normalize sampleParse (JStr ''[1]'') = Inr (JArr [JNum 1])
   \<and> normalize sampleParse (JStr ''{bad}'') = Inl SyntaxError
   \<and> normalize sampleParse (JStr ''not-json'') = Inr (JStr ''not-json'')
   \<and> normalize sampleParse (JStr []) = Inr (JStr [])\<close>
  using normalize_string [of sampleParse \<open>''{"a":1}''\<close>]
    normalize_string [of sampleParse "''[1]''"]
    normalize_string [of sampleParse "''{bad}''"]
    normalize_string [of sampleParse "[]"]
  by (simp add: sampleParse_def)

text \<open>
  The string \<^verbatim>\<open> {}\<close>, with a space in front, has length 3 and its trimmed content is
  \<^verbatim>\<open>{}\<close>, which \<^verbatim>\<open>JSON.parse\<close> turns into the empty object; the normalizer does not trim
  and leaves the string as it is.
\<close>

theorem normalize_untrimmed:
  "1 < length '' {}'' \<and> trim '' {}'' = ''{}''
   \<and> sampleParse '' {}'' = Some (JObj [])
   \<and> normalize sampleParse (JStr '' {}'') = Inr (JStr '' {}'')
   \<and> normalize sampleParse (JStr '' {}'') \<noteq> Inr (JObj [])"
  by (simp add: normalize_JStr sampleParse_def trim_def isSpace_def)

subsection \<open>The Date built-in and the calendar\<close>

lemma div_lo: "0 < k \<Longrightarrow> k * (x div k) \<le> (x::int)"
  using pos_mod_sign[of k x] by (simp add: algebra_simps minus_mult_div_eq_mod[symmetric])

lemma div_hi: "0 < k \<Longrightarrow> (x::int) < k * (x div k) + k"
  using pos_mod_bound[of k x] by (simp add: algebra_simps minus_mult_div_eq_mod[symmetric])

lemma DayFromYear_upper: "400 * DayFromYear y \<le> 146097 * y - 287810501"
proof -
  define a b c where "a = (y - 1969) div 4" and "b = (y - 1901) div 100" and "c = (y - 1601) div 400"
  have "4 * a \<le> y - 1969" unfolding a_def by (rule div_lo) simp
  moreover have "y - 1901 < 100 * b + 100" unfolding b_def by (rule div_hi) simp
  moreover have "400 * c \<le> y - 1601" unfolding c_def by (rule div_lo) simp
  moreover have "DayFromYear y = 365 * y - 719050 + a - b + c"
    unfolding DayFromYear_def a_def b_def c_def by simp
  ultimately show ?thesis by linarith
qed

lemma DayFromYear_lower: "146097 * y - 287811596 \<le> 400 * DayFromYear y"
proof -
  define a b c where "a = (y - 1969) div 4" and "b = (y - 1901) div 100" and "c = (y - 1601) div 400"
  have "y - 1969 < 4 * a + 4" unfolding a_def by (rule div_hi) simp
  moreover have "100 * b \<le> y - 1901" unfolding b_def by (rule div_lo) simp
  moreover have "y - 1601 < 400 * c + 400" unfolding c_def by (rule div_hi) simp
  moreover have "DayFromYear y = 365 * y - 719050 + a - b + c"
    unfolding DayFromYear_def a_def b_def c_def by simp
  ultimately show ?thesis by linarith
qed

lemma YearFromDay_bounds:
  "DayFromYear (YearFromDay d) \<le> d \<and> d < DayFromYear (YearFromDay d + 1)"
proof -
  define q where "q = (400 * d) div 146097"
  define y0 where "y0 = 1970 + q"
  have a1: "146097 * q \<le> 400 * d"
    unfolding q_def by (rule div_lo) simp
  have a2: "400 * d < 146097 * q + 146097"
    unfolding q_def by (rule div_hi) simp
  have lo: "DayFromYear (y0 - 1) \<le> d"
    using DayFromYear_upper[of "y0 - 1"] a1 unfolding y0_def by (simp add: algebra_simps)
  have hi: "d < DayFromYear (y0 + 2)"
    using DayFromYear_lower[of "y0 + 2"] a2 unfolding y0_def by (simp add: algebra_simps)
  have eq: "YearFromDay d = (if d < DayFromYear y0 then y0 - 1
     else if DayFromYear (y0 + 1) \<le> d then y0 + 1 else y0)"
    unfolding YearFromDay_def y0_def q_def Let_def by simp
  have s: "y0 - 1 + 1 = y0" "y0 + 1 + 1 = y0 + 2" by simp_all
  show ?thesis using lo hi unfolding eq by (simp add: s)
qed

lemma div_step:
  fixes x k :: int
  assumes "0 < k"
  shows "(x + 1) div k = x div k + (if (x + 1) mod k = 0 then 1 else 0)"
proof -
  define q r where "q = x div k" and "r = x mod k"
  have x: "x = k * q + r" and r: "0 \<le> r" "r < k"
    using assms by (simp_all add: q_def r_def)
  show ?thesis
  proof (cases "r + 1 < k")
    case True
    have e: "x + 1 = k * q + (r + 1)" using x by simp
    have "(x + 1) div k = q" using e r True by (intro int_div_pos_eq[of _ _ _ "r + 1"]) simp_all
    moreover have "(x + 1) mod k = r + 1" using e r True by (intro int_mod_pos_eq[of _ _ q]) simp_all
    ultimately show ?thesis using r by (simp add: q_def)
  next
    case False
    with r have k: "r + 1 = k" by simp
    have e: "x + 1 = k * (q + 1) + 0" using x k by (simp add: algebra_simps)
    have "(x + 1) div k = q + 1" using e assms by (intro int_div_pos_eq[of _ _ _ 0]) simp_all
    moreover have "(x + 1) mod k = 0" using e assms by (intro int_mod_pos_eq[of _ _ "q + 1"]) simp_all
    ultimately show ?thesis by (simp add: q_def)
  qed
qed

lemma mod_shift:
  "(y - 1968) mod 4 = y mod 4"
  "(y - 1900) mod 100 = y mod 100"
  "(y - 1600) mod 400 = (y::int) mod 400"
  using mod_mult_self2[of y 4 "- 492"] mod_mult_self2[of y 100 "- 19"]
    mod_mult_self2[of y 400 "- 4"]
  by simp_all

lemma mod_100_4: "(y::int) mod 100 = 0 \<Longrightarrow> y mod 4 = 0"
  using mod_mod_cancel[of 4 100 y] by simp

lemma mod_400_100: "(y::int) mod 400 = 0 \<Longrightarrow> y mod 100 = 0"
  using mod_mod_cancel[of 100 400 y] by simp

lemma DayFromYear_next: "DayFromYear (y + 1) = DayFromYear y + DaysInYear y"
proof -
  have a: "(y - 1968) div 4 = (y - 1969) div 4 + (if y mod 4 = 0 then 1 else 0)"
    using div_step[of 4 "y - 1969"] by (simp add: mod_shift)
  have b: "(y - 1900) div 100 = (y - 1901) div 100 + (if y mod 100 = 0 then 1 else 0)"
    using div_step[of 100 "y - 1901"] by (simp add: mod_shift)
  have c: "(y - 1600) div 400 = (y - 1601) div 400 + (if y mod 400 = 0 then 1 else 0)"
    using div_step[of 400 "y - 1601"] by (simp add: mod_shift)
  have n: "DayFromYear (y + 1) =
      365 * (y - 1969) + (y - 1968) div 4 - (y - 1900) div 100 + (y - 1600) div 400"
    by (simp add: DayFromYear_def)
  have l: "DaysInYear y = 365 + (if y mod 4 = 0 then 1 else 0)
      - (if y mod 100 = 0 then 1 else 0) + (if y mod 400 = 0 then 1 else 0)"
  proof (cases "y mod 400 = 0")
    case True
    then have "y mod 100 = 0" by (rule mod_400_100)
    moreover from this have "y mod 4 = 0" by (rule mod_100_4)
    ultimately show ?thesis using True by (simp add: DaysInYear_def)
  next
    case n400: False
    show ?thesis
    proof (cases "y mod 100 = 0")
      case True
      then have "y mod 4 = 0" by (rule mod_100_4)
      with True n400 show ?thesis by (simp add: DaysInYear_def)
    next
      case False
      with n400 show ?thesis by (simp add: DaysInYear_def)
    qed
  qed
  show ?thesis
    unfolding n l a b c by (simp add: DayFromYear_def)
qed

lemma DaysInYear_pos: "365 \<le> DaysInYear y" "DaysInYear y \<le> 366"
  by (simp_all add: DaysInYear_def)

lemma DayFromYear_mono: "a \<le> b \<Longrightarrow> DayFromYear a \<le> DayFromYear b"
proof (induction b rule: int_ge_induct)
  case base
  show ?case by simp
next
  case (step i)
  then show ?case using DaysInYear_pos(1)[of i] by (simp add: DayFromYear_next)
qed

lemma YearFromDay_unique:
  assumes "DayFromYear y \<le> n" "n < DayFromYear (y + 1)"
  shows "YearFromDay n = y"
proof (rule ccontr)
  assume ne: "YearFromDay n \<noteq> y"
  note b = YearFromDay_bounds[of n]
  show False
  proof (cases "YearFromDay n < y")
    case True
    then have "DayFromYear (YearFromDay n + 1) \<le> DayFromYear y"
      by (intro DayFromYear_mono) simp
    with b assms show False by simp
  next
    case False
    with ne have "DayFromYear (y + 1) \<le> DayFromYear (YearFromDay n)"
      by (intro DayFromYear_mono) simp
    with b assms show False by simp
  qed
qed

lemma MonthFromTime_table: "MonthFromTime t = monthOf (DayWithinYear t) (InLeapYear t)"
  by (simp add: MonthFromTime_def monthOf_def Let_def)

lemma DateFromTime_table: "DateFromTime t = dateOf (DayWithinYear t) (InLeapYear t)"
  by (simp add: DateFromTime_def dateOf_def Let_def MonthFromTime_table)

lemma table_step0:
  assumes "0 \<le> w" "w + 1 < 365"
  shows "monthOf (w + 1) 0 =
           (if dateOf w 0 < monthLen (monthOf w 0) 0 then monthOf w 0 else monthOf w 0 + 1)
       \<and> dateOf (w + 1) 0 =
           (if dateOf w 0 < monthLen (monthOf w 0) 0 then dateOf w 0 + 1 else 1)"
  using assms unfolding dateOf_def monthOf_def monthLen_def Let_def
  by (simp split: if_splits)

lemma table_step1:
  assumes "0 \<le> w" "w + 1 < 366"
  shows "monthOf (w + 1) 1 =
           (if dateOf w 1 < monthLen (monthOf w 1) 1 then monthOf w 1 else monthOf w 1 + 1)
       \<and> dateOf (w + 1) 1 =
           (if dateOf w 1 < monthLen (monthOf w 1) 1 then dateOf w 1 + 1 else 1)"
  using assms unfolding dateOf_def monthOf_def monthLen_def Let_def
  by (simp split: if_splits)

lemma table_step:
  assumes "l = 0 \<or> l = 1" "0 \<le> w" "w + 1 < 365 + l"
  shows "monthOf (w + 1) l =
           (if dateOf w l < monthLen (monthOf w l) l then monthOf w l else monthOf w l + 1)"
    and "dateOf (w + 1) l =
           (if dateOf w l < monthLen (monthOf w l) l then dateOf w l + 1 else 1)"
  using assms table_step0[of w] table_step1[of w] by auto

lemma table_valid0:
  assumes "0 \<le> w" "w < 365"
  shows "0 \<le> monthOf w 0 \<and> monthOf w 0 \<le> 11 \<and> 1 \<le> dateOf w 0
       \<and> dateOf w 0 \<le> monthLen (monthOf w 0) 0"
  using assms unfolding dateOf_def monthOf_def monthLen_def Let_def
  by (simp split: if_splits)

lemma table_valid1:
  assumes "0 \<le> w" "w < 366"
  shows "0 \<le> monthOf w 1 \<and> monthOf w 1 \<le> 11 \<and> 1 \<le> dateOf w 1
       \<and> dateOf w 1 \<le> monthLen (monthOf w 1) 1"
  using assms unfolding dateOf_def monthOf_def monthLen_def Let_def
  by (simp split: if_splits)

lemma table_valid:
  assumes "l = 0 \<or> l = 1" "0 \<le> w" "w < 365 + l"
  shows "0 \<le> monthOf w l" "monthOf w l \<le> 11" "1 \<le> dateOf w l"
    "dateOf w l \<le> monthLen (monthOf w l) l"
  using assms table_valid0[of w] table_valid1[of w] by auto

lemma table_last:
  assumes "l = 0 \<or> l = 1"
  shows "monthOf (364 + l) l = 11" "dateOf (364 + l) l = 31"
  using assms by (auto simp: monthOf_def dateOf_def)

lemma table_first: "monthOf 0 l = 0" "dateOf 0 l = 1"
  by (simp_all add: monthOf_def dateOf_def)

lemma leapYear_DaysInYear: "leapYear y \<longleftrightarrow> DaysInYear y = 366"
  using mod_100_4[of y] mod_400_100[of y] by (auto simp: leapYear_def DaysInYear_def)

lemma monthLen_daysInMonth:
  "0 \<le> m \<Longrightarrow> m \<le> 11 \<Longrightarrow>
   daysInMonth y (m + 1) = monthLen m (if DaysInYear y = 366 then 1 else 0)"
  by (auto simp: daysInMonth_def monthLen_def leapYear_DaysInYear)

lemma jsDate_dayDate: "jsDate t = dayDate (Day t)"
  by (simp add: jsDate_def dayDate_def Let_def MonthFromTime_table DateFromTime_table
        YearFromTime_def DayWithinYear_def InLeapYear_def)

lemma dayDate_within:
  fixes n :: int
  defines "y \<equiv> YearFromDay n"
  shows "0 \<le> n - DayFromYear y" "n - DayFromYear y < DaysInYear y"
  using YearFromDay_bounds[of n] by (simp_all add: y_def DayFromYear_next)

lemma dayDate_valid: "validDate (dayDate n)"
proof -
  define y where "y = YearFromDay n"
  define l :: int where "l = (if DaysInYear y = 366 then 1 else 0)"
  define w where "w = n - DayFromYear y"
  have l01: "l = 0 \<or> l = 1" by (simp add: l_def)
  have len: "DaysInYear y = 365 + l" by (auto simp: l_def DaysInYear_def)
  have w: "0 \<le> w" "w < 365 + l"
    using dayDate_within[of n] by (simp_all add: w_def y_def len[symmetric])
  note v = table_valid[OF l01 w]
  have "daysInMonth y (monthOf w l + 1) = monthLen (monthOf w l) l"
    using monthLen_daysInMonth[OF v(1,2), of y] by (simp add: l_def)
  with v have "validDate (y, monthOf w l + 1, dateOf w l)"
    by (simp add: validDate_def)
  then show ?thesis by (simp add: dayDate_def Let_def y_def l_def w_def)
qed

lemma dayDate_step: "dayDate (n + 1) = nextDay (dayDate n)"
proof -
  define y where "y = YearFromDay n"
  define l :: int where "l = (if DaysInYear y = 366 then 1 else 0)"
  define w where "w = n - DayFromYear y"
  have l01: "l = 0 \<or> l = 1" by (simp add: l_def)
  have len: "DaysInYear y = 365 + l" by (auto simp: l_def DaysInYear_def)
  have w: "0 \<le> w" "w < 365 + l"
    using dayDate_within[of n] by (simp_all add: w_def y_def len[symmetric])
  have cur: "dayDate n = (y, monthOf w l + 1, dateOf w l)"
    by (simp add: dayDate_def Let_def y_def l_def w_def)
  note v = table_valid[OF l01 w]
  have dim: "daysInMonth y (monthOf w l + 1) = monthLen (monthOf w l) l"
    using monthLen_daysInMonth[OF v(1,2), of y] by (simp add: l_def)
  show ?thesis
  proof (cases "w + 1 < 365 + l")
    case True
    have "DayFromYear y \<le> n + 1" "n + 1 < DayFromYear (y + 1)"
      using w True by (simp_all add: w_def DayFromYear_next len)
    then have y': "YearFromDay (n + 1) = y" by (rule YearFromDay_unique)
    have e: "n + 1 - DayFromYear y = w + 1" by (simp add: w_def)
    have nxt: "dayDate (n + 1) = (y, monthOf (w + 1) l + 1, dateOf (w + 1) l)"
      unfolding dayDate_def Let_def y' e l_def ..
    note st = table_step[OF l01 w(1) True]
    show ?thesis
    proof (cases "dateOf w l < monthLen (monthOf w l) l")
      case True
      then show ?thesis unfolding nxt cur
        by (simp add: nextDay_def dim st)
    next
      case False
      have "monthOf w l + 1 \<le> monthOf (w + 1) l" using False by (simp add: st)
      moreover have "monthOf (w + 1) l \<le> 11"
        using table_valid(2)[OF l01, of "w + 1"] w(1) True by simp
      ultimately have "monthOf w l + 1 < 12" by simp
      with False show ?thesis unfolding nxt cur
        by (simp add: nextDay_def dim st)
    qed
  next
    case False
    with w have we: "w = 364 + l" by simp
    have A: "DayFromYear (y + 1) = DayFromYear y + 365 + l"
      by (simp add: DayFromYear_next len)
    have B: "DayFromYear (y + 1 + 1) = DayFromYear (y + 1) + DaysInYear (y + 1)"
      by (rule DayFromYear_next)
    have n: "n = DayFromYear y + 364 + l" using we by (simp add: w_def)
    have "DayFromYear (y + 1) \<le> n + 1"
      unfolding A n by simp
    moreover have "n + 1 < DayFromYear (y + 1 + 1)"
      unfolding B A n using DaysInYear_pos(1)[of "y + 1"] by linarith
    ultimately have y': "YearFromDay (n + 1) = y + 1" by (rule YearFromDay_unique)
    have "n + 1 - DayFromYear (y + 1) = 0"
      using we by (simp add: w_def DayFromYear_next len)
    then have nxt: "dayDate (n + 1) = (y + 1, 1, 1)"
      unfolding dayDate_def Let_def y' by (simp add: table_first)
    have "dayDate n = (y, 12, 31)"
      unfolding cur we using table_last[OF l01] by simp
    moreover have "daysInMonth y 12 = 31" by (simp add: daysInMonth_def)
    ultimately show ?thesis unfolding nxt by (simp add: nextDay_def)
  qed
qed

lemma prevDay_nextDay: "validDate dt \<Longrightarrow> prevDay (nextDay dt) = dt"
  by (cases dt) (auto simp: validDate_def nextDay_def prevDay_def daysInMonth_def)

lemma dayDate_0: "dayDate 0 = (1970, 1, 1)"
  by (simp add: dayDate_def YearFromDay_def DayFromYear_def DaysInYear_def Let_def table_first)

lemma dayDate_back: "dayDate (n - 1) = prevDay (dayDate n)"
  using dayDate_step[of "n - 1"] prevDay_nextDay[OF dayDate_valid[of "n - 1"]] by simp

lemma dayDate_forward: "dayDate (int k) = (nextDay ^^ k) (1970, 1, 1)"
proof (induction k)
  case 0
  show ?case by (simp add: dayDate_0)
next
  case (Suc k)
  have "int (Suc k) = int k + 1" by simp
  then have "dayDate (int (Suc k)) = nextDay (dayDate (int k))"
    by (simp only: dayDate_step)
  with Suc show ?case by simp
qed

lemma dayDate_backward: "dayDate (- int k) = (prevDay ^^ k) (1970, 1, 1)"
proof (induction k)
  case 0
  show ?case by (simp add: dayDate_0)
next
  case (Suc k)
  have "- int (Suc k) = - int k - 1" by simp
  then have "dayDate (- int (Suc k)) = prevDay (dayDate (- int k))"
    by (simp only: dayDate_back)
  with Suc show ?case by simp
qed

lemma dayDate_civil: "dayDate n = civil n"
proof (cases "0 \<le> n")
  case True
  then show ?thesis using dayDate_forward[of "nat n"] by (simp add: civil_def)
next
  case False
  then show ?thesis using dayDate_backward[of "nat (- n)"] by (simp add: civil_def)
qed

lemma jsDate_civil: "jsDate t = civil (Day t)"
  by (simp add: jsDate_dayDate dayDate_civil)

subsection \<open>The day key\<close>

lemma nat_str_small: "n < 10 \<Longrightarrow> nat_str n = [digit n]"
  by (subst nat_str.simps) simp

lemma nat_str_large: "\<not> n < 10 \<Longrightarrow> nat_str n = nat_str (n div 10) @ [digit (n mod 10)]"
  by (subst nat_str.simps) simp

lemma zeroPad_2: "zeroPad 2 n = [digit (n div 10 mod 10), digit (n mod 10)]"
  by (simp add: numeral_2_eq_2)

lemma zeroPad_4:
  "zeroPad 4 n = [digit (n div 1000 mod 10), digit (n div 100 mod 10),
                  digit (n div 10 mod 10), digit (n mod 10)]"
proof -
  have four: "(4::nat) = Suc (Suc (Suc (Suc 0)))" by simp
  show ?thesis unfolding four by (simp add: div_mult2_eq[symmetric])
qed

lemma nat_str_1digit: "n < 10 \<Longrightarrow> CHR ''0'' # nat_str n = zeroPad 2 n"
  by (simp add: zeroPad_2 nat_str_small digit_def)

lemma nat_str_2digits: "10 \<le> n \<Longrightarrow> n < 100 \<Longrightarrow> nat_str n = zeroPad 2 n"
  by (simp add: zeroPad_2 nat_str_small nat_str_large)

lemma nat_str_4digits: "1000 \<le> n \<Longrightarrow> n < 10000 \<Longrightarrow> nat_str n = zeroPad 4 n"
proof -
  assume n: "1000 \<le> n" "n < 10000"
  have a: "\<not> n < 10" "\<not> n div 10 < 10" "\<not> n div 10 div 10 < 10" "n div 10 div 10 div 10 < 10"
    using n by simp_all
  have "nat_str n = [digit (n div 10 div 10 div 10), digit (n div 10 div 10 mod 10),
                     digit (n div 10 mod 10), digit (n mod 10)]"
    using a by (simp add: nat_str_small nat_str_large)
  moreover have "n div 10 div 10 div 10 = n div 1000 mod 10" "n div 10 div 10 = n div 100"
    using n by (simp_all add: div_mult2_eq[symmetric])
  ultimately show ?thesis by (simp add: zeroPad_4)
qed

lemma length_zeroPad: "length (zeroPad k n) = k"
  by (induction k arbitrary: n) simp_all

lemma Day_seconds: "Day (t * 1000) = t div 86400"
proof -
  have "t * 1000 div (86400 * 1000) = t div 86400"
    by (rule div_mult_mult2) simp
  then show ?thesis by (simp add: Day_def msPerDay_def)
qed

lemma utcDate_js: "utcDate t = jsDate (t * 1000)"
  by (simp add: utcDate_def jsDate_civil Day_seconds)

lemma YearFromDay_range:
  assumes "DayFromYear a \<le> n" "n < DayFromYear b"
  shows "a \<le> YearFromDay n" "YearFromDay n < b"
proof -
  note bd = YearFromDay_bounds[of n]
  show "a \<le> YearFromDay n"
  proof (rule ccontr)
    assume "\<not> a \<le> YearFromDay n"
    then have "DayFromYear (YearFromDay n + 1) \<le> DayFromYear a"
      by (intro DayFromYear_mono) simp
    with bd assms show False by simp
  qed
  show "YearFromDay n < b"
  proof (rule ccontr)
    assume "\<not> YearFromDay n < b"
    then have "DayFromYear b \<le> DayFromYear (YearFromDay n)"
      by (intro DayFromYear_mono) simp
    with bd assms show False by simp
  qed
qed

lemma getDay_valid:
  assumes "\<bar>t * 1000\<bar> \<le> 8640000000000000"
  shows "getDay (Some t) =
     (let y = YearFromTime (t * 1000); m = MonthFromTime (t * 1000) + 1;
          d = DateFromTime (t * 1000)
      in int_str y @ (if m < 10 then ''0'' @ int_str m else int_str m)
           @ (if d < 10 then ''0'' @ int_str d else int_str d))"
  using assms
  by (simp add: getDay_def TimeClip_def num_mul_def num_add_def num_lt_def num_str_def
        getUTCFullYear_def getUTCMonth_def getUTCDate_def Let_def)

lemma getDay_format:
  assumes "- 30610224000 \<le> t" "t < 253402300800"
  shows "getDay (Some t) =
     (case utcDate t of (y, m, d) \<Rightarrow> zeroPad 4 (nat y) @ zeroPad 2 (nat m) @ zeroPad 2 (nat d))"
proof -
  define y m d where "y = YearFromTime (t * 1000)" and "m = MonthFromTime (t * 1000) + 1"
    and "d = DateFromTime (t * 1000)"
  have u: "utcDate t = (y, m, d)"
    by (simp add: utcDate_js jsDate_def y_def m_def d_def)
  have "validDate (y, m, d)"
    using dayDate_valid[of "Day (t * 1000)"] unfolding u[symmetric] utcDate_js jsDate_dayDate .
  then have md: "1 \<le> m" "m \<le> 12" "1 \<le> d" "d \<le> 31"
    by (auto simp: validDate_def daysInMonth_def split: if_splits)
  have "DayFromYear 1000 \<le> t div 86400" "t div 86400 < DayFromYear 10000"
    using assms by (simp_all add: DayFromYear_def)
  from YearFromDay_range[OF this] have yr: "1000 \<le> y" "y < 10000"
    by (simp_all add: y_def YearFromTime_def Day_seconds)
  have ys: "int_str y = zeroPad 4 (nat y)"
    using yr by (simp add: int_str_def nat_str_4digits)
  have ms: "(if m < 10 then ''0'' @ int_str m else int_str m) = zeroPad 2 (nat m)"
    using md by (auto simp: int_str_def nat_str_1digit nat_str_2digits simp del: zeroPad.simps)
  have ds: "(if d < 10 then ''0'' @ int_str d else int_str d) = zeroPad 2 (nat d)"
    using md by (auto simp: int_str_def nat_str_1digit nat_str_2digits simp del: zeroPad.simps)
  have "\<bar>t * 1000\<bar> \<le> 8640000000000000" using assms by simp
  from getDay_valid[OF this] show ?thesis
    unfolding u Let_def y_def[symmetric] m_def[symmetric] d_def[symmetric] ys ms ds by simp
qed

lemmas getDay_eval =
  getDay_def TimeClip_def num_mul_def num_add_def num_lt_def num_str_def int_str_def
  getUTCFullYear_def getUTCMonth_def getUTCDate_def YearFromTime_def MonthFromTime_def
  DateFromTime_def DayWithinYear_def InLeapYear_def DaysInYear_def Day_def msPerDay_def
  YearFromDay_def DayFromYear_def Let_def nat_str_small nat_str_large digit_def

lemma getDay_NaN: "getDay None = ''NaNNaNNaN''"
  by (simp add: getDay_eval)

lemma getDay_boundary:
  "getDay (Some 1620518399) = ''20210508''" "getDay (Some 1620518400) = ''20210509''"
  "getDay (Some 1620434655) = ''20210508''"
  by (simp_all add: getDay_eval)

lemma getDay_year10000: "getDay (Some 253402300800) = ''100000101''"
  by (simp add: getDay_eval)

lemma utcDate_sample: "utcDate 1620434655 = (2021, 5, 8)"
  by (simp add: utcDate_js jsDate_def getDay_eval)

text \<open>
  Claim C4, as amended. For a \<^verbatim>\<open>unixTime\<close> from -30610224000 to 253402300799, the seconds
  of the UTC years 1000 to 9999, the day key is the UTC calendar date of \<^verbatim>\<open>unixTime\<close>: the
  year in four digits, then the month and the day in two digits each, padded with zeros,
  eight characters in all. It is computed from \<^verbatim>\<open>unixTime\<close> alone: changing
  \<^verbatim>\<open>calendarTime\<close> does not change it. 1620518399 is 2021-05-08T23:59:59Z and gives
  \<^verbatim>\<open>20210508\<close>; one second later gives \<^verbatim>\<open>20210509\<close>.
\<close>

theorem getDay_utc_date:
  "(- 30610224000 \<le> t \<and> t < 253402300800 \<longrightarrow>
      getDay (Some t) =
        (case utcDate t of
           (y, m, d) \<Rightarrow> zeroPad 4 (nat y) @ zeroPad 2 (nat m) @ zeroPad 2 (nat d))
      \<and> length (getDay (Some t)) = 8)
   \<and> getDay (unixTime (r\<lparr>calendarTime := c\<rparr>)) = getDay (unixTime r)
   \<and> getDay (Some 1620518399) = ''20210508''
   \<and> getDay (Some 1620518400) = ''20210509''"
proof (intro conjI impI)
  assume t: "- 30610224000 \<le> t \<and> t < 253402300800"
  then show f: "getDay (Some t) =
        (case utcDate t of
           (y, m, d) \<Rightarrow> zeroPad 4 (nat y) @ zeroPad 2 (nat m) @ zeroPad 2 (nat d))"
    by (intro getDay_format) simp_all
  show "length (getDay (Some t)) = 8"
    unfolding f by (cases "utcDate t") (simp add: length_zeroPad del: zeroPad.simps)
qed (simp_all add: getDay_boundary)

theorem getDay_utc_date_witness:
  "- 30610224000 \<le> (1620434655::int) \<and> (1620434655::int) < 253402300800
   \<and> utcDate 1620434655 = (2021, 5, 8)
   \<and> getDay (Some 1620434655) = ''20210508''
   \<and> length (getDay (Some 1620434655)) = 8"
  using getDay_utc_date [of 1620434655]
  by (simp add: utcDate_sample getDay_boundary length_zeroPad)

text \<open>
  The year is appended as it is, without padding: the first second of the year 10000 gives
  a key of nine characters.
\<close>

theorem getDay_year_10000:
  "utcDate 253402300800 = (10000, 1, 1)
   \<and> getDay (Some 253402300800) = ''100000101''
   \<and> length (getDay (Some 253402300800)) = 9"
  by (simp add: utcDate_js jsDate_def getDay_eval)

text \<open>
  A day key is a plain name: it is made of digits, a minus sign and the letters of
  \<^verbatim>\<open>NaN\<close>, and every name of \<open>objectPrototype\<close> has an \<^verbatim>\<open>o\<close> or an \<^verbatim>\<open>e\<close>. So the read
  \<^verbatim>\<open>partitions[day]\<close> never finds a property of \<^verbatim>\<open>Object.prototype\<close>.
\<close>

lemma digit_chars: "n < 10 \<Longrightarrow> digit n \<in> set ''0123456789''"
  unfolding digit_def by (rule nth_mem) simp

lemma digit_no_letter: "n < 10 \<Longrightarrow> CHR ''o'' \<noteq> digit n \<and> CHR ''e'' \<noteq> digit n"
  using digit_chars[of n] by auto

lemma nat_str_no_letter: "CHR ''o'' \<notin> set (nat_str n) \<and> CHR ''e'' \<notin> set (nat_str n)"
proof (induction n rule: nat_str.induct)
  case (1 n)
  show ?case
  proof (cases "n < 10")
    case True
    then show ?thesis using digit_no_letter[OF True] by (simp add: nat_str_small)
  next
    case False
    have "n mod 10 < 10" by simp
    from digit_no_letter[OF this] 1[OF False] False show ?thesis
      by (simp add: nat_str_large)
  qed
qed

lemma num_str_no_letter: "CHR ''o'' \<notin> set (num_str x) \<and> CHR ''e'' \<notin> set (num_str x)"
  using nat_str_no_letter by (cases x) (simp_all add: num_str_def int_str_def)

lemma getDay_no_letter: "CHR ''o'' \<notin> set (getDay t) \<and> CHR ''e'' \<notin> set (getDay t)"
  unfolding getDay_def Let_def using num_str_no_letter by simp

lemma objectPrototype_letter:
  "n \<in> set objectPrototype \<Longrightarrow> CHR ''o'' \<in> set n \<or> CHR ''e'' \<in> set n"
  unfolding objectPrototype_def by (elim disjE | simp)+

lemma getDay_plain: "plainName (getDay t)"
  unfolding plainName_def using objectPrototype_letter getDay_no_letter by blast

subsection \<open>The Record Partitioner\<close>

lemma sum_put:
  "sum_list (map (\<lambda>(k, v). f v) (put k v ob)) + (case map_of ob k of None \<Rightarrow> 0 | Some v0 \<Rightarrow> f v0)
     = sum_list (map (\<lambda>(k, v). f v) ob) + (f v :: nat)"
  by (induction ob) (auto split: prod.splits)

lemma fst_set_put: "fst ` set (put k v ob) = insert k (fst ` set ob)"
  by (induction ob) auto

lemma distinct_put: "distinct (map fst ob) \<Longrightarrow> distinct (map fst (put k v ob))"
proof (induction ob)
  case Nil
  then show ?case by simp
next
  case (Cons a ob)
  show ?case
  proof (cases "fst a = k")
    case True
    with Cons.prems show ?thesis by simp
  next
    case False
    with Cons show ?thesis by (simp add: fst_set_put)
  qed
qed

lemma bucket_put: "bucket (put d rows p) d' = (if d' = d then rows else bucket p d')"
  by (simp add: bucket_def map_of_put)

lemma partitionsOf_put:
  "partitionsOf (put n p ds) n' = (if n' = n then p else partitionsOf ds n')"
  by (simp add: partitionsOf_def map_of_put)

lemma bucket_ensure:
  "bucket (if map_of p d = None then put d [] p else p) d' = bucket p d'"
  by (simp add: bucket_def map_of_put)

lemma addRow_ensured:
  "addRow r row ds =
     put (name r)
       (put (getDay (unixTime r)) (bucket (ensured r ds) (getDay (unixTime r)) @ [row])
          (ensured r ds)) ds"
  by (simp add: addRow_def Let_def ensured_def)

lemma bucket_ensured: "bucket (ensured r ds) d = bucket (partitionsOf ds (name r)) d"
  unfolding ensured_def by (rule bucket_ensure)

lemma map_of_ensured:
  "map_of (ensured r ds) d =
     (if d = getDay (unixTime r)
      then Some (bucket (partitionsOf ds (name r)) d)
      else map_of (partitionsOf ds (name r)) d)"
  by (auto simp: ensured_def map_of_put bucket_def)

lemma rowsAt_addRow:
  "rowsAt (addRow r row ds) n d =
     (if n = name r \<and> d = getDay (unixTime r) then rowsAt ds n d @ [row]
      else rowsAt ds n d)"
  by (simp add: addRow_ensured rowsAt_def partitionsOf_put bucket_put bucket_ensured)

lemma bucketRows_ensured: "bucketRows (ensured r ds) = bucketRows (partitionsOf ds (name r))"
  using sum_put[of length "getDay (unixTime r)" "[]" "partitionsOf ds (name r)"]
  by (auto simp: ensured_def bucketRows_def)

lemma totalRows_addRow: "totalRows (addRow r row ds) = totalRows ds + 1"
proof -
  let ?n = "name r" and ?d = "getDay (unixTime r)"
  let ?p1 = "ensured r ds"
  let ?p2 = "put ?d (bucket ?p1 ?d @ [row]) ?p1"
  have d1: "map_of ?p1 ?d = Some (bucket ?p1 ?d)"
    by (simp add: map_of_ensured bucket_ensured)
  have s2: "bucketRows ?p2 = bucketRows ?p1 + 1"
    using sum_put[of length ?d "bucket ?p1 ?d @ [row]" ?p1] d1 by (simp add: bucketRows_def)
  have old: "(case map_of ds ?n of None \<Rightarrow> 0 | Some p \<Rightarrow> bucketRows p)
               = bucketRows (partitionsOf ds ?n)"
    by (simp add: partitionsOf_def bucketRows_def split: option.splits)
  have "totalRows (put ?n ?p2 ds) + bucketRows (partitionsOf ds ?n) = totalRows ds + bucketRows ?p2"
    using sum_put[of bucketRows ?n ?p2 ds] old by (simp add: totalRows_def)
  then show ?thesis using s2 by (simp add: addRow_ensured bucketRows_ensured)
qed

lemma bucketsFilled_addRow:
  assumes "bucketsFilled ds"
  shows "bucketsFilled (addRow r row ds)"
  unfolding bucketsFilled_def
proof (intro allI impI, elim conjE)
  fix n p d rows
  assume n: "map_of (addRow r row ds) n = Some p" and d: "map_of p d = Some rows"
  show "rows \<noteq> []"
  proof (cases "n = name r")
    case False
    with n have "map_of ds n = Some p" by (simp add: addRow_ensured map_of_put)
    with d assms show ?thesis unfolding bucketsFilled_def by blast
  next
    case True
    with n have p: "p = put (getDay (unixTime r))
        (bucket (ensured r ds) (getDay (unixTime r)) @ [row]) (ensured r ds)"
      by (simp add: addRow_ensured map_of_put)
    show ?thesis
    proof (cases "d = getDay (unixTime r)")
      case True
      with d p show ?thesis by (auto simp: map_of_put)
    next
      case False
      with d p have m: "map_of (partitionsOf ds (name r)) d = Some rows"
        by (simp add: map_of_put map_of_ensured)
      then obtain p0 where "map_of ds (name r) = Some p0" "map_of p0 d = Some rows"
        by (cases "map_of ds (name r)") (auto simp: partitionsOf_def)
      with assms show ?thesis unfolding bucketsFilled_def by blast
    qed
  qed
qed

lemma distinct_ensured:
  "distinct (map fst (partitionsOf ds (name r))) \<Longrightarrow> distinct (map fst (ensured r ds))"
  by (simp add: ensured_def distinct_put)

lemma keysDistinct_addRow:
  assumes "keysDistinct ds"
  shows "keysDistinct (addRow r row ds)"
proof -
  have p0: "distinct (map fst (partitionsOf ds (name r)))"
    using assms by (cases "map_of ds (name r)") (auto simp: keysDistinct_def partitionsOf_def)
  have p2: "distinct (map fst (put (getDay (unixTime r))
        (bucket (ensured r ds) (getDay (unixTime r)) @ [row]) (ensured r ds)))"
    by (intro distinct_put distinct_ensured p0)
  show ?thesis
    unfolding keysDistinct_def
  proof (intro conjI allI impI)
    show "distinct (map fst (addRow r row ds))"
      using assms by (simp add: addRow_ensured distinct_put keysDistinct_def)
  next
    fix n p assume "map_of (addRow r row ds) n = Some p"
    then show "distinct (map fst p)"
      using p2 assms by (auto simp: addRow_ensured map_of_put keysDistinct_def split: if_splits)
  qed
qed

lemma parseLoop_ok:
  assumes "\<forall>r\<in>set data. \<exists>row. makeRow parse r = Inr row"
  shows "\<exists>ds'. parseLoop parse data ds = Inr ds'
    \<and> (\<forall>n d. rowsAt ds' n d = rowsAt ds n d @ map (rowOf parse) (recordsIn data n d))
    \<and> totalRows ds' = totalRows ds + length data
    \<and> (bucketsFilled ds \<longrightarrow> bucketsFilled ds')
    \<and> (keysDistinct ds \<longrightarrow> keysDistinct ds')"
  using assms
proof (induction data arbitrary: ds)
  case Nil
  then show ?case by (simp add: recordsIn_def)
next
  case (Cons r data)
  from Cons.prems obtain row where row: "makeRow parse r = Inr row" by auto
  from Cons.prems have "\<forall>r\<in>set data. \<exists>row. makeRow parse r = Inr row" by simp
  from Cons.IH[OF this, of "addRow r row ds"] obtain ds' where
    ds': "parseLoop parse data (addRow r row ds) = Inr ds'"
      "\<forall>n d. rowsAt ds' n d = rowsAt (addRow r row ds) n d @ map (rowOf parse) (recordsIn data n d)"
      "totalRows ds' = totalRows (addRow r row ds) + length data"
      "bucketsFilled (addRow r row ds) \<longrightarrow> bucketsFilled ds'"
      "keysDistinct (addRow r row ds) \<longrightarrow> keysDistinct ds'"
    by blast
  have "parseLoop parse (r # data) ds = Inr ds'"
    using row ds'(1) by simp
  moreover have "\<forall>n d. rowsAt ds' n d = rowsAt ds n d @ map (rowOf parse) (recordsIn (r # data) n d)"
    using ds'(2) row by (simp add: rowsAt_addRow recordsIn_def rowOf_def)
  moreover have "totalRows ds' = totalRows ds + length (r # data)"
    using ds'(3) by (simp add: totalRows_addRow)
  moreover have "bucketsFilled ds \<longrightarrow> bucketsFilled ds'"
    using ds'(4) bucketsFilled_addRow by blast
  moreover have "keysDistinct ds \<longrightarrow> keysDistinct ds'"
    using ds'(5) keysDistinct_addRow by blast
  ultimately show ?case by blast
qed

lemma parseLoop_fails:
  assumes "r \<in> set data" "\<forall>row. makeRow parse r \<noteq> Inr row"
  shows "\<exists>e. parseLoop parse data ds = Inl e"
  using assms
proof (induction data arbitrary: ds)
  case Nil
  then show ?case by simp
next
  case (Cons a data)
  show ?case
  proof (cases "makeRow parse a")
    case (Inl e)
    then show ?thesis by simp
  next
    case (Inr row)
    with Cons.prems have "r \<in> set data" by auto
    from Cons.IH[OF this Cons.prems(2)] Inr show ?thesis by simp
  qed
qed

lemma parseLoop_error:
  assumes "parseLoop parse data ds = Inl e"
  shows "\<exists>r\<in>set data. makeRow parse r = Inl e"
  using assms
proof (induction data arbitrary: ds)
  case Nil
  then show ?case by simp
next
  case (Cons a data)
  show ?case
  proof (cases "makeRow parse a")
    case (Inl e')
    with Cons.prems show ?thesis by simp
  next
    case (Inr row)
    with Cons.prems have "parseLoop parse data (addRow a row ds) = Inl e" by simp
    from Cons.IH[OF this] show ?thesis by auto
  qed
qed

subsection \<open>Rows\<close>

lemma normalize_ok_iff:
  "(\<exists>v. normalize parse value = Inr v) \<longleftrightarrow>
     (\<exists>s. value = JStr s \<and> (jsonShaped (JStr s) = Inr True \<longrightarrow> parse s \<noteq> None))"
proof (cases "value")
  case (JStr s)
  obtain b where b: "jsonShaped (JStr s) = Inr b" by simp
  show ?thesis unfolding JStr
    using b by (cases b; cases "parse s") (simp_all add: normalize_def del: jsonShaped.simps)
qed (simp_all add: normalize_def)

lemma normalize_string_error: "normalize parse (JStr s) = Inl e \<Longrightarrow> e = SyntaxError"
  by (auto simp: normalize_JStr split: if_splits option.splits)

lemma copyColumns_ok_iff:
  "(\<exists>row. copyColumns parse cols ks row0 = Inr row) \<longleftrightarrow>
     (\<forall>k\<in>set ks. \<exists>v. normalize parse (get_prop cols k) = Inr v)"
proof (induction ks arbitrary: row0)
  case Nil
  then show ?case by simp
next
  case (Cons k ks)
  show ?case
  proof (cases "normalize parse (get_prop cols k)")
    case (Inl e)
    then show ?thesis by simp
  next
    case (Inr v)
    then show ?thesis using Cons.IH[of "assign k v row0"] by simp
  qed
qed

lemma copyColumns_error:
  "copyColumns parse cols ks row0 = Inl e \<Longrightarrow>
   \<exists>k\<in>set ks. normalize parse (get_prop cols k) = Inl e"
proof (induction ks arbitrary: row0)
  case Nil
  then show ?case by simp
next
  case (Cons k ks)
  show ?case
  proof (cases "normalize parse (get_prop cols k)")
    case (Inl e')
    with Cons.prems show ?thesis by simp
  next
    case (Inr v)
    with Cons.prems have "copyColumns parse cols ks (assign k v row0) = Inl e" by simp
    from Cons.IH[OF this] show ?thesis by auto
  qed
qed

lemma copyColumns_map:
  "copyColumns parse cols ks row0 = Inr row \<Longrightarrow>
   map_of row k =
     (if k \<in> set ks \<and> k \<noteq> ''__proto__''
      then (case normalize parse (get_prop cols k) of Inl e \<Rightarrow> None | Inr v \<Rightarrow> Some v)
      else map_of row0 k)"
proof (induction ks arbitrary: row0)
  case Nil
  then show ?case by simp
next
  case (Cons a ks)
  from Cons.prems obtain v where v: "normalize parse (get_prop cols a) = Inr v"
    and rest: "copyColumns parse cols ks (assign a v row0) = Inr row"
    by (cases "normalize parse (get_prop cols a)") simp_all
  from Cons.IH[OF rest] v show ?case by (auto simp: map_of_assign)
qed

lemma makeRow_ok_iff: "(\<exists>row. makeRow parse r = Inr row) \<longleftrightarrow> normalizable parse r"
  unfolding makeRow_def copyColumns_ok_iff normalize_ok_iff normalizable_def stringColumns_def
    parsable_def by (auto simp del: jsonShaped.simps)

lemma makeRow_rowOf: "normalizable parse r \<Longrightarrow> makeRow parse r = Inr (rowOf parse r)"
  using makeRow_ok_iff[of parse r] by (auto simp: rowOf_def)

lemma makeRow_string_error:
  assumes "stringColumns r" "makeRow parse r = Inl e"
  shows "e = SyntaxError"
proof -
  from assms(2) obtain k where k: "k \<in> set (keys (columns r))"
    "normalize parse (get_prop (columns r) k) = Inl e"
    unfolding makeRow_def by (blast dest: copyColumns_error)
  from assms(1) k(1) obtain s where "get_prop (columns r) k = JStr s"
    unfolding stringColumns_def by blast
  with k(2) show ?thesis by (simp add: normalize_string_error)
qed

lemma makeRow_column:
  assumes "makeRow parse r = Inr row" "k \<in> set (keys (columns r))" "k \<noteq> ''__proto__''"
  shows "normalize parse (get_prop (columns r) k) = Inr (get_prop row k)"
proof -
  from assms(1) have ok: "\<exists>row. copyColumns parse (columns r) (keys (columns r)) (newRow r) = Inr row"
    by (auto simp: makeRow_def)
  then obtain v where v: "normalize parse (get_prop (columns r) k) = Inr v"
    using assms(2) unfolding copyColumns_ok_iff by blast
  from assms have "map_of row k = Some v"
    using copyColumns_map[of parse "columns r" "keys (columns r)" "newRow r" row k] v
    by (simp add: makeRow_def)
  then show ?thesis using v by (simp add: get_prop_def)
qed

lemma makeRow_reserved:
  assumes "makeRow parse r = Inr row" "k \<notin> set (keys (columns r)) \<or> k = ''__proto__''"
  shows "map_of row k = map_of (newRow r) k"
  using assms copyColumns_map[of parse "columns r" "keys (columns r)" "newRow r" row k]
  by (auto simp: makeRow_def)

lemma makeRow_keys:
  assumes "makeRow parse r = Inr row"
  shows "set (keys row) =
     {''calendarTime'', ''unixTime'', ''added''} \<union> (set (keys (columns r)) - {''__proto__''})"
proof (rule set_eqI)
  fix k
  show "k \<in> set (keys row) \<longleftrightarrow>
      k \<in> {''calendarTime'', ''unixTime'', ''added''} \<union> (set (keys (columns r)) - {''__proto__''})"
  proof (cases "k \<in> set (keys (columns r)) \<and> k \<noteq> ''__proto__''")
    case True
    then have k: "k \<in> set (keys (columns r))" "k \<noteq> ''__proto__''" by simp_all
    from makeRow_column[OF assms k] obtain v where v: "normalize parse (get_prop (columns r) k) = Inr v"
      by blast
    have "map_of row k = Some v"
      using assms copyColumns_map[of parse "columns r" "keys (columns r)" "newRow r" row k] v k
      by (simp add: makeRow_def)
    with True show ?thesis by (simp add: in_keys_iff)
  next
    case False
    then have "k \<notin> set (keys (columns r)) \<or> k = ''__proto__''" by blast
    from makeRow_reserved[OF assms this] have "map_of row k = map_of (newRow r) k" .
    with False show ?thesis by (auto simp: in_keys_iff newRow_def split: if_splits)
  qed
qed

lemmas row_eval =
  makeRow_def newRow_def num_val_def keys_def get_prop_def assign_def normalize_JStr
  sampleParse_def

lemma makeRow_samples:
  \<open>makeRow sampleParse eventAdded =
     Inr [(''calendarTime'', JStr ''Sat May  8 00:44:15 2021 UTC''), (''unixTime'', JNum 1620434655),
          (''added'', JBool True), (''abc'', JStr ''def''), (''labels'', JObj [(''a'', JNum 1)])]\<close>
  "makeRow sampleParse eventSameDay =
     Inr [(''calendarTime'', JStr ''Sat May  8 23:59:59 2021 UTC''), (''unixTime'', JNum 1620518399),
          (''added'', JBool True), (''abc'', JStr ''ghi'')]"
  "makeRow sampleParse eventNextDay =
     Inr [(''calendarTime'', JStr ''Sun May  9 00:00:00 2021 UTC''), (''unixTime'', JNum 1620518400),
          (''added'', JBool False), (''abc'', JStr ''xyz'')]"
  "makeRow sampleParse podEvent =
     Inr [(''calendarTime'', JStr ''Sat May  8 00:44:15 2021 UTC''), (''unixTime'', JNum 1620434655),
          (''added'', JBool True), (''privileged'', JStr ''1'')]"
  "makeRow sampleParse eventNoTime =
     Inr [(''calendarTime'', JUndefined), (''unixTime'', JUndefined),
          (''added'', JBool True), (''abc'', JStr ''def'')]"
  "makeRow sampleParse eventBadJson = Inl SyntaxError"
  "makeRow sampleParse eventReserved =
     Inr [(''calendarTime'', JStr ''now''), (''unixTime'', JNum 1620434655), (''added'', JStr [])]"
  by (simp_all add: row_eval eventAdded_def eventSameDay_def eventNextDay_def podEvent_def
        eventNoTime_def eventBadJson_def eventReserved_def)

lemma normalizable_samples:
  "normalizable sampleParse eventAdded" "normalizable sampleParse podEvent"
  "normalizable sampleParse eventNextDay" "normalizable sampleParse eventSameDay"
  "normalizable sampleParse eventNoTime"
  by (simp_all add: makeRow_ok_iff[symmetric] makeRow_samples)

lemma day_samples:
  "getDay (unixTime eventAdded) = ''20210508''"
  "getDay (unixTime podEvent) = ''20210508''"
  "getDay (unixTime eventSameDay) = ''20210508''"
  "getDay (unixTime eventNextDay) = ''20210509''"
  "getDay (unixTime eventNoTime) = ''NaNNaNNaN''"
  "getDay (unixTime eventBadJson) = ''20210508''"
  by (simp_all add: eventAdded_def podEvent_def eventSameDay_def eventNextDay_def eventNoTime_def
      eventBadJson_def getDay_boundary getDay_NaN)

lemma name_samples:
  "name eventAdded = ''kubernetes_events''"
  "name podEvent = ''kubernetes_pods''"
  "name eventSameDay = ''kubernetes_events''"
  "name eventNextDay = ''kubernetes_events''"
  "name eventNoTime = ''kubernetes_events''"
  "name eventBadJson = ''kubernetes_events''"
  by (simp_all add: eventAdded_def podEvent_def eventSameDay_def eventNextDay_def eventNoTime_def
      eventBadJson_def)


lemmas batch_eval =
  parseResult_def addRow_def partitionsOf_def bucket_def Let_def makeRow_rowOf
  normalizable_samples day_samples name_samples

lemma parseResult_sample:
  \<open>parseResult sampleParse [eventAdded, podEvent, eventNextDay, eventSameDay] =
     Inr [(''kubernetes_events'',
            [(''20210508'', [rowOf sampleParse eventAdded, rowOf sampleParse eventSameDay]),
             (''20210509'', [rowOf sampleParse eventNextDay])]),
          (''kubernetes_pods'', [(''20210508'', [rowOf sampleParse podEvent])])]\<close>
  by (simp add: batch_eval)

lemma parseResult_sample_nan:
  \<open>parseResult sampleParse [eventAdded, eventNoTime] =
     Inr [(''kubernetes_events'',
            [(''20210508'', [rowOf sampleParse eventAdded]),
             (''NaNNaNNaN'', [rowOf sampleParse eventNoTime])])]\<close>
  by (simp add: batch_eval)

lemma stringColumns_samples:
  "stringColumns eventAdded" "stringColumns podEvent" "stringColumns eventBadJson"
  "stringColumns eventNoTime"
  by (simp_all add: stringColumns_def keys_def get_prop_def eventAdded_def podEvent_def
        eventBadJson_def eventNoTime_def)

lemma not_parsable_sample: "\<not> parsable sampleParse eventBadJson"
proof -
  have "\<not> normalizable sampleParse eventBadJson"
    by (simp add: makeRow_ok_iff[symmetric] makeRow_samples)
  then show ?thesis by (simp add: normalizable_def stringColumns_samples)
qed

text \<open>
  The dataset of a batch of records that have plain names and are \<open>normalizable\<close>:
  \<^verbatim>\<open>parseResult\<close> returns it. The bucket of a table name and a day key holds exactly the
  rows of the records with that name and that day key, in the order of the batch; so
  each record's row is in the bucket of its name and of \<^verbatim>\<open>getDay(record.unixTime)\<close>, the
  buckets hold as many rows as the batch has records, no bucket of the dataset is empty,
  and no key is listed twice.
\<close>

lemma parseResult_partitions:
  assumes names: "\<forall>r\<in>set data. plainName (name r)"
    and cols: "\<forall>r\<in>set data. normalizable parse r"
  shows "\<exists>ds. parseResult parse data = Inr ds
        \<and> (\<forall>n d. rowsAt ds n d = map (rowOf parse) (recordsIn data n d))
        \<and> (\<forall>r\<in>set data. rowOf parse r \<in> set (rowsAt ds (name r) (getDay (unixTime r))))
        \<and> totalRows ds = length data
        \<and> bucketsFilled ds \<and> keysDistinct ds"
proof -
  from cols have "\<forall>r\<in>set data. \<exists>row. makeRow parse r = Inr row"
    by (simp add: makeRow_ok_iff)
  from parseLoop_ok[OF this, of "[]"] obtain ds where
    ds: "parseResult parse data = Inr ds"
      "\<forall>n d. rowsAt ds n d = map (rowOf parse) (recordsIn data n d)"
      "totalRows ds = length data" "bucketsFilled ds" "keysDistinct ds"
    by (auto simp: parseResult_def rowsAt_def partitionsOf_def bucket_def totalRows_def
          bucketsFilled_def keysDistinct_def)
  have "\<forall>r\<in>set data. rowOf parse r \<in> set (rowsAt ds (name r) (getDay (unixTime r)))"
    by (simp add: ds(2) recordsIn_def)
  with ds show ?thesis by blast
qed

lemma parseResult_partitions_sample:
  \<open>\<exists>ds. parseResult sampleParse [eventAdded, podEvent, eventNextDay, eventSameDay] = Inr ds
        \<and> rowsAt ds ''kubernetes_events'' ''20210508''
            = [rowOf sampleParse eventAdded, rowOf sampleParse eventSameDay]
        \<and> rowsAt ds ''kubernetes_events'' ''20210509'' = [rowOf sampleParse eventNextDay]
        \<and> rowsAt ds ''kubernetes_pods'' ''20210508'' = [rowOf sampleParse podEvent]
        \<and> totalRows ds = 4\<close>
proof -
  let ?batch = "[eventAdded, podEvent, eventNextDay, eventSameDay]"
  have names: "\<forall>r\<in>set ?batch. plainName (name r)"
    by (simp add: name_samples plain_samples)
  have cols: "\<forall>r\<in>set ?batch. normalizable sampleParse r"
    by (simp add: normalizable_samples)
  from parseResult_partitions [OF names cols] obtain ds where
    ds: "parseResult sampleParse ?batch = Inr ds" "totalRows ds = length ?batch"
    by blast
  from ds(1) have e: "ds = [(''kubernetes_events'',
            [(''20210508'', [rowOf sampleParse eventAdded, rowOf sampleParse eventSameDay]),
             (''20210509'', [rowOf sampleParse eventNextDay])]),
          (''kubernetes_pods'', [(''20210508'', [rowOf sampleParse podEvent])])]"
    by (simp add: parseResult_sample)
  have r: "rowsAt ds ''kubernetes_events'' ''20210508''
            = [rowOf sampleParse eventAdded, rowOf sampleParse eventSameDay]"
    "rowsAt ds ''kubernetes_events'' ''20210509'' = [rowOf sampleParse eventNextDay]"
    "rowsAt ds ''kubernetes_pods'' ''20210508'' = [rowOf sampleParse podEvent]"
    unfolding e by (simp_all add: rowsAt_def partitionsOf_def bucket_def)
  have t: "totalRows ds = 4" using ds(2) by simp
  show ?thesis using ds(1) r t by blast
qed

text \<open>
  Claim C9. A batch with a record that has a number as a column value gets no dataset.
  \<open>eventNumber\<close> has the column \<^verbatim>\<open>restart_count: 3\<close>. In the column loop the test for
  brackets is applied to the number, since \<^verbatim>\<open>||\<close> puts it outside the \<^verbatim>\<open>typeof\<close> guard,
  and \<^verbatim>\<open>value.charAt\<close> is not a function: \<^verbatim>\<open>parseResult\<close> raises \<^verbatim>\<open>TypeError\<close>, alone and
  after a record that by itself is placed in its bucket. No row of the batch is in any
  bucket.
\<close>

theorem parseResult_number_column:
  "get_prop (columns eventNumber) ''restart_count'' = JNum 3
   \<and> normalize sampleParse (JNum 3) = Inl TypeError
   \<and> parseResult sampleParse [eventNumber] = Inl TypeError
   \<and> parseResult sampleParse [eventAdded]
       = Inr [(''kubernetes_events'', [(''20210508'', [rowOf sampleParse eventAdded])])]
   \<and> parseResult sampleParse [eventAdded, eventNumber] = Inl TypeError"
proof -
  have c: "get_prop (columns eventNumber) ''restart_count'' = JNum 3"
    by (simp add: eventNumber_def get_prop_def)
  have m: "makeRow sampleParse eventNumber = Inl TypeError"
    by (simp add: row_eval normalize_number eventNumber_def)
  show ?thesis
    using c m by (simp add: normalize_number batch_eval)
qed

text \<open>
  Claim C3, as amended. \<^verbatim>\<open>parseResult\<close> has no \<^verbatim>\<open>try\<close>. Take a batch whose records have
  plain names and strings as column values (a column value that is not a string raises
  \<^verbatim>\<open>TypeError\<close>, and a name that is not plain leads out of the objects of the call; both
  are left aside here). When one of the column values passes the
  test for brackets but is rejected by \<^verbatim>\<open>JSON.parse\<close>, the \<^verbatim>\<open>SyntaxError\<close> leaves
  \<^verbatim>\<open>parseResult\<close>: no dataset is returned and no record of the batch is placed. When
  \<^verbatim>\<open>JSON.parse\<close> rejects none, a dataset is returned, and a record without \<^verbatim>\<open>unixTime\<close> is
  not rejected: it is placed in the bucket \<^verbatim>\<open>NaNNaNNaN\<close> of its table, and every other
  record in the bucket of its day.
\<close>

theorem parseResult_malformed:
  "(\<forall>r\<in>set data. plainName (name r) \<and> stringColumns r) \<longrightarrow>
     ((\<exists>r\<in>set data. \<not> parsable parse r) \<longrightarrow> parseResult parse data = Inl SyntaxError)
     \<and> ((\<forall>r\<in>set data. parsable parse r) \<longrightarrow>
          (\<exists>ds. parseResult parse data = Inr ds
             \<and> (\<forall>r\<in>set data. rowOf parse r \<in> set (rowsAt ds (name r)
                   (if unixTime r = None then ''NaNNaNNaN'' else getDay (unixTime r))))))"
proof (intro conjI impI)
  assume s: "\<forall>r\<in>set data. plainName (name r) \<and> stringColumns r"
  assume "\<exists>r\<in>set data. \<not> parsable parse r"
  then obtain r where r: "r \<in> set data" "\<not> normalizable parse r"
    by (auto simp: normalizable_def)
  then have "\<forall>row. makeRow parse r \<noteq> Inr row"
    using makeRow_ok_iff[of parse r] by blast
  from parseLoop_fails[OF r(1) this, of "[]"] obtain e where
    e: "parseResult parse data = Inl e" by (auto simp: parseResult_def)
  then obtain r' where "r' \<in> set data" "makeRow parse r' = Inl e"
    unfolding parseResult_def by (blast dest: parseLoop_error)
  with s have "e = SyntaxError" by (blast intro: makeRow_string_error)
  with e show "parseResult parse data = Inl SyntaxError" by simp
next
  assume s: "\<forall>r\<in>set data. plainName (name r) \<and> stringColumns r"
  assume "\<forall>r\<in>set data. parsable parse r"
  with s have "\<forall>r\<in>set data. \<exists>row. makeRow parse r = Inr row"
    by (simp add: makeRow_ok_iff normalizable_def)
  from parseLoop_ok[OF this, of "[]"] obtain ds where
    ds: "parseResult parse data = Inr ds"
      "\<forall>n d. rowsAt ds n d = map (rowOf parse) (recordsIn data n d)"
    by (auto simp: parseResult_def rowsAt_def partitionsOf_def bucket_def)
  have "\<forall>r\<in>set data. rowOf parse r \<in> set (rowsAt ds (name r)
                (if unixTime r = None then ''NaNNaNNaN'' else getDay (unixTime r)))"
    by (auto simp: ds(2) recordsIn_def getDay_NaN)
  with ds(1) show "\<exists>ds. parseResult parse data = Inr ds
          \<and> (\<forall>r\<in>set data. rowOf parse r \<in> set (rowsAt ds (name r)
                (if unixTime r = None then ''NaNNaNNaN'' else getDay (unixTime r))))"
    by blast
qed

theorem parseResult_malformed_witness:
  "plainName (name eventBadJson) \<and> plainName (name podEvent)
   \<and> plainName (name eventAdded) \<and> plainName (name eventNoTime)
   \<and> stringColumns eventBadJson \<and> stringColumns podEvent
   \<and> stringColumns eventAdded \<and> stringColumns eventNoTime
   \<and> \<not> parsable sampleParse eventBadJson
   \<and> parseResult sampleParse [eventBadJson, podEvent] = Inl SyntaxError
   \<and> parsable sampleParse eventAdded \<and> parsable sampleParse eventNoTime
   \<and> unixTime eventNoTime = None
   \<and> (\<exists>ds. parseResult sampleParse [eventAdded, eventNoTime] = Inr ds
        \<and> rowOf sampleParse eventNoTime \<in> set (rowsAt ds ''kubernetes_events'' ''NaNNaNNaN'')
        \<and> rowOf sampleParse eventAdded \<in> set (rowsAt ds ''kubernetes_events'' ''20210508''))"
proof -
  have n: "plainName (name eventBadJson)" "plainName (name podEvent)"
    "plainName (name eventAdded)" "plainName (name eventNoTime)"
    by (simp_all add: name_samples plain_samples)
  have a: "\<forall>r\<in>set [eventBadJson, podEvent]. plainName (name r) \<and> stringColumns r"
    using n by (simp add: stringColumns_samples)
  have b: "\<exists>r\<in>set [eventBadJson, podEvent]. \<not> parsable sampleParse r"
    by (simp add: not_parsable_sample)
  from parseResult_malformed [of "[eventBadJson, podEvent]" sampleParse] a b
  have c: "parseResult sampleParse [eventBadJson, podEvent] = Inl SyntaxError"
    by blast
  have d: "\<forall>r\<in>set [eventAdded, eventNoTime]. plainName (name r) \<and> stringColumns r"
    using n by (simp add: stringColumns_samples)
  have e: "\<forall>r\<in>set [eventAdded, eventNoTime]. parsable sampleParse r"
    using normalizable_samples by (simp add: normalizable_def)
  from parseResult_malformed [of "[eventAdded, eventNoTime]" sampleParse] d e
  obtain ds where ds: "parseResult sampleParse [eventAdded, eventNoTime] = Inr ds"
    "\<forall>r\<in>set [eventAdded, eventNoTime]. rowOf sampleParse r \<in> set (rowsAt ds (name r)
        (if unixTime r = None then ''NaNNaNNaN'' else getDay (unixTime r)))"
    by blast
  have t: "unixTime eventNoTime = None" "unixTime eventAdded \<noteq> None"
    by (simp_all add: eventNoTime_def eventAdded_def)
  from ds(2) t have p: "rowOf sampleParse eventNoTime \<in> set (rowsAt ds ''kubernetes_events'' ''NaNNaNNaN'')"
    "rowOf sampleParse eventAdded \<in> set (rowsAt ds ''kubernetes_events'' ''20210508'')"
    by (simp_all add: name_samples day_samples)
  show ?thesis
    using n c e t(1) ds(1) p by (simp add: stringColumns_samples not_parsable_sample)
qed

text \<open>
  One record with a column \<^verbatim>\<open>{bad}\<close> after a record that by itself is placed in its
  bucket: \<^verbatim>\<open>parseResult\<close> raises, and the whole batch is lost.
\<close>

theorem parseResult_aborts:
  "get_prop (columns eventBadJson) ''labels'' = JStr ''{bad}''
   \<and> sampleParse ''{bad}'' = None
   \<and> parseResult sampleParse [eventAdded]
       = Inr [(''kubernetes_events'', [(''20210508'', [rowOf sampleParse eventAdded])])]
   \<and> parseResult sampleParse [eventAdded, eventBadJson] = Inl SyntaxError"
proof -
  have "sampleParse ''{bad}'' = None" by (simp add: sampleParse_def)
  moreover have "get_prop (columns eventBadJson) ''labels'' = JStr ''{bad}''"
    by (simp add: eventBadJson_def get_prop_def)
  ultimately show ?thesis
    by (simp add: batch_eval makeRow_samples(6))
qed

text \<open>
  The row that the later revision builds for a record has the keys \<^verbatim>\<open>calendarTime\<close>,
  \<^verbatim>\<open>unixTime\<close>, \<^verbatim>\<open>added\<close> and the names of the columns other than \<^verbatim>\<open>__proto__\<close>. Under
  the name of such a column it carries the column's value passed through the Field
  Normalizer, also when the column is named \<^verbatim>\<open>calendarTime\<close>, \<^verbatim>\<open>unixTime\<close> or \<^verbatim>\<open>added\<close>:
  the columns are written after the reserved keys. When no column has the name,
  \<^verbatim>\<open>calendarTime\<close> and \<^verbatim>\<open>unixTime\<close> are the record's, and \<^verbatim>\<open>added\<close> is true exactly when
  the record's action is the string \<^verbatim>\<open>added\<close>.
\<close>

lemma makeRow_fields:
  assumes m: "makeRow parse r = Inr row"
  shows "set (keys row) =
      {''calendarTime'', ''unixTime'', ''added''} \<union> (set (keys (columns r)) - {''__proto__''})"
    and "\<forall>k\<in>set (keys (columns r)). k \<noteq> ''__proto__'' \<longrightarrow>
           normalize parse (get_prop (columns r) k) = Inr (get_prop row k)"
    and "''calendarTime'' \<notin> set (keys (columns r)) \<longrightarrow>
           get_prop row ''calendarTime'' = calendarTime r"
    and "''unixTime'' \<notin> set (keys (columns r)) \<longrightarrow>
           get_prop row ''unixTime'' = num_val (unixTime r)"
    and "''added'' \<notin> set (keys (columns r)) \<longrightarrow>
           get_prop row ''added'' = JBool (action r = JStr ''added'')"
proof -
  show "set (keys row) =
      {''calendarTime'', ''unixTime'', ''added''} \<union> (set (keys (columns r)) - {''__proto__''})"
    using m by (rule makeRow_keys)
  show "\<forall>k\<in>set (keys (columns r)). k \<noteq> ''__proto__'' \<longrightarrow>
           normalize parse (get_prop (columns r) k) = Inr (get_prop row k)"
    using m by (blast intro: makeRow_column)
  have res: "k \<notin> set (keys (columns r)) \<Longrightarrow> map_of row k = map_of (newRow r) k" for k
    using makeRow_reserved[OF m, of k] by simp
  show "''calendarTime'' \<notin> set (keys (columns r)) \<longrightarrow>
           get_prop row ''calendarTime'' = calendarTime r"
    using res[of "''calendarTime''"] by (simp add: get_prop_def newRow_def)
  show "''unixTime'' \<notin> set (keys (columns r)) \<longrightarrow>
           get_prop row ''unixTime'' = num_val (unixTime r)"
    using res[of "''unixTime''"] by (simp add: get_prop_def newRow_def)
  show "''added'' \<notin> set (keys (columns r)) \<longrightarrow>
           get_prop row ''added'' = JBool (action r = JStr ''added'')"
    using res[of "''added''"] by (simp add: get_prop_def newRow_def)
qed

text \<open>A column named \<^verbatim>\<open>__proto__\<close> leaves no entry in the row.\<close>

lemma makeRow_proto_column:
  "makeRow sampleParse eventProto =
     Inr [(''calendarTime'', JStr ''Sat May  8 00:44:15 2021 UTC''), (''unixTime'', JNum 1620434655),
          (''added'', JBool True), (''abc'', JStr ''def'')]"
  by (simp add: row_eval eventProto_def)

text \<open>
  Claim C5. A column with the name of a reserved key replaces the reserved value.
  \<open>eventReserved\<close> has the columns \<^verbatim>\<open>calendarTime: 'now'\<close> and \<^verbatim>\<open>added: ''\<close>. In the row
  of the later revision \<^verbatim>\<open>calendarTime\<close> and \<^verbatim>\<open>added\<close> hold the values of the columns, not
  the record's time and not the flag of its action: the columns are written after the
  reserved keys. The earlier revision, on the same record, writes the reserved keys
  last: there the row holds the record's time and the flag.
\<close>

theorem makeRow_column_overwrites:
  "columns eventReserved = [(''calendarTime'', JStr ''now''), (''added'', JStr [])]
   \<and> calendarTime eventReserved = JStr ''Sat May  8 00:44:15 2021 UTC''
   \<and> action eventReserved = JStr ''added''
   \<and> makeRow sampleParse eventReserved
       = Inr [(''calendarTime'', JStr ''now''), (''unixTime'', JNum 1620434655),
              (''added'', JStr [])]
   \<and> load [columns eventReserved] storedReserved = eventReserved
   \<and> snd (oldRowAt storedReserved [columns eventReserved]) ! fst (oldRowAt storedReserved [columns eventReserved])
       = [(''calendarTime'', JStr ''Sat May  8 00:44:15 2021 UTC''), (''added'', JBool True),
          (''unixTime'', JNum 1620434655)]"
proof -
  have "load [columns eventReserved] storedReserved = eventReserved"
    by (simp add: load_def storedReserved_def eventReserved_def)
  moreover have "snd (oldRowAt storedReserved [columns eventReserved])
        ! fst (oldRowAt storedReserved [columns eventReserved])
       = [(''calendarTime'', JStr ''Sat May  8 00:44:15 2021 UTC''), (''added'', JBool True),
          (''unixTime'', JNum 1620434655)]"
    by (simp add: oldRowAt_def Let_def storedReserved_def eventReserved_def num_val_def)
  ultimately show ?thesis
    by (simp add: makeRow_samples) (simp add: eventReserved_def)
qed

subsection \<open>Enrollment and the node key\<close>

lemma indexOf_neg_iff: "indexOf xs v < 0 \<longleftrightarrow> (\<forall>x\<in>set xs. v \<noteq> JStr x)"
  by (induction xs) (auto simp: Let_def)

lemma NODE_KEYS_digests: "NODE_KEYS sha256 env = map sha256 (ENROLL_SECRETS env)"
  by (simp add: NODE_KEYS_def ENROLL_SECRETS_def)

lemma secrets_sample: "ENROLL_SECRETS ''alpha, beta'' = [''alpha'', ''beta'']"
  by (simp add: ENROLL_SECRETS_def trim_def isSpace_def)

lemma secrets_unset: "ENROLL_SECRETS [] = [[]]"
  by (simp add: ENROLL_SECRETS_def trim_def)

text \<open>
  Claim C10, as amended. For every secret of the list \<open>ENROLL_SECRETS\<close> that is not the
  empty string, \<^verbatim>\<open>enroll\<close> answers 200 with the digest of the secret as \<^verbatim>\<open>node_key\<close>. A log
  request with that \<^verbatim>\<open>node_key\<close> (a digest is not the empty string) is not rejected for
  its node key. A log request whose \<^verbatim>\<open>node_key\<close> is absent, or is not the digest of a
  secret of the list, is rejected for its node key with the error response. The empty
  secret is rejected by \<^verbatim>\<open>enroll\<close>, in the list or not.
\<close>

theorem enroll_log_roundtrip:
  "(s \<in> set (ENROLL_SECRETS env) \<and> s \<noteq> [] \<longrightarrow>
      enroll sha256 env [(''enroll_secret'', JStr s)]
        = \<lparr>statusCode = 200,
           body = Some (JObj [(''node_key'', JStr (sha256 s)),
                              (''node_invalid'', JBool False)])\<rparr>)
   \<and> (s \<in> set (ENROLL_SECRETS env) \<and> sha256 s \<noteq> []
        \<and> get_prop request ''node_key'' = JStr (sha256 s) \<longrightarrow>
      log sha256 env request \<noteq> InvalidNodeKey)
   \<and> (get_prop request ''node_key'' = JUndefined
        \<or> (\<forall>k\<in>set (ENROLL_SECRETS env). get_prop request ''node_key'' \<noteq> JStr (sha256 k)) \<longrightarrow>
      log sha256 env request = InvalidNodeKey
      \<and> logResponse (log sha256 env request) = ERROR)
   \<and> enroll sha256 env [(''enroll_secret'', JStr [])] = ERROR"
  by (auto simp: enroll_def log_def indexOf_neg_iff NODE_KEYS_digests get_prop_def Let_def)

theorem enroll_log_roundtrip_witness:
  "''beta'' \<in> set (ENROLL_SECRETS ''alpha, beta'')
   \<and> enroll sampleDigest ''alpha, beta'' [(''enroll_secret'', JStr ''beta'')]
       = \<lparr>statusCode = 200,
          body = Some (JObj [(''node_key'', JStr ''sha256:beta''),
                             (''node_invalid'', JBool False)])\<rparr>
   \<and> sampleDigest ''beta'' \<noteq> []
   \<and> log sampleDigest ''alpha, beta''
         [(''node_key'', JStr ''sha256:beta''), (''log_type'', JStr ''snapshot''),
          (''data'', JArr [])] = SnapshotIgnored
   \<and> JStr ''sha256:gamma'' \<noteq> JStr (sampleDigest ''alpha'')
   \<and> JStr ''sha256:gamma'' \<noteq> JStr (sampleDigest ''beta'')
   \<and> log sampleDigest ''alpha, beta''
         [(''node_key'', JStr ''sha256:gamma''), (''log_type'', JStr ''snapshot''),
          (''data'', JArr [])] = InvalidNodeKey
   \<and> log sampleDigest ''alpha, beta''
         [(''log_type'', JStr ''snapshot''), (''data'', JArr [])] = InvalidNodeKey"
  using enroll_log_roundtrip [of "''beta''" "''alpha, beta''" sampleDigest
      "[(''node_key'', JStr ''sha256:beta''), (''log_type'', JStr ''snapshot''),
        (''data'', JArr [])]"]
    enroll_log_roundtrip [of "''beta''" "''alpha, beta''" sampleDigest
      "[(''node_key'', JStr ''sha256:gamma''), (''log_type'', JStr ''snapshot''),
        (''data'', JArr [])]"]
    enroll_log_roundtrip [of "''beta''" "''alpha, beta''" sampleDigest
      "[(''log_type'', JStr ''snapshot''), (''data'', JArr [])]"]
  by (simp add: secrets_sample sampleDigest_def get_prop_def log_def NODE_KEYS_digests)

text \<open>
  When the environment variable is not set the list holds the empty string, and
  \<^verbatim>\<open>enroll\<close> rejects it: \<^verbatim>\<open>!body.enroll_secret\<close> is true for the empty string.
\<close>

theorem enroll_empty_secret:
  "[] \<in> set (ENROLL_SECRETS [])
   \<and> enroll sampleDigest [] [(''enroll_secret'', JStr [])] = ERROR
   \<and> statusCode (enroll sampleDigest [] [(''enroll_secret'', JStr [])]) = 500"
  by (simp add: secrets_unset enroll_def get_prop_def ERROR_def)

subsection \<open>The store\<close>

lemma copyColumnsAt_frame:
  assumes "copyColumnsAt parse cols ks row h = (res, h')" "n \<le> row" "n \<le> length h"
  shows "length h' = length h \<and> take n h' = take n h"
  using assms
proof (induction ks arbitrary: h)
  case Nil
  then show ?case by simp
next
  case (Cons key ks)
  show ?case
  proof (cases "normalize parse (get_prop (h ! cols) key)")
    case (Inl e)
    with Cons.prems show ?thesis by simp
  next
    case (Inr v)
    let ?h1 = "h[row := assign key v (h ! row)]"
    from Cons.prems Inr have "copyColumnsAt parse cols ks row ?h1 = (res, h')" by simp
    from Cons.IH[OF this] Cons.prems(2,3)
    have "length h' = length ?h1 \<and> take n h' = take n ?h1" by simp
    with Cons.prems(2) show ?thesis by simp
  qed
qed

lemma makeRowAt_frame:
  assumes "makeRowAt parse rcd h = (res, h')"
  shows "length h \<le> length h' \<and> take (length h) h' = h"
proof -
  let ?h1 = "h @ [newRow (load h rcd)]"
  obtain r where c: "copyColumnsAt parse (columnsAt rcd) (keys (?h1 ! columnsAt rcd))
      (length h) ?h1 = (r, h')"
    using assms by (auto simp: makeRowAt_def Let_def split: prod.splits option.splits)
  from copyColumnsAt_frame[OF c, of "length h"]
  show ?thesis by simp
qed

lemma parseLoopAt_frame:
  assumes "parseLoopAt parse data tbls h = (res, h')"
  shows "length h \<le> length h' \<and> take (length h) h' = h"
  using assms
proof (induction data arbitrary: tbls h)
  case Nil
  then show ?case by simp
next
  case (Cons rcd rest)
  obtain r h1 where m: "makeRowAt parse rcd h = (r, h1)" by (cases "makeRowAt parse rcd h")
  note f1 = makeRowAt_frame[OF m]
  show ?case
  proof (cases r)
    case (Inl e)
    with Cons.prems m f1 show ?thesis by simp
  next
    case (Inr row)
    with Cons.prems m have "parseLoopAt parse rest (pushRow rcd row tbls) h1 = (res, h')"
      by simp
    from Cons.IH[OF this] have f2: "length h1 \<le> length h'" "take (length h1) h' = h1" by simp_all
    have "take (length h) h' = take (length h) (take (length h1) h')"
      using f1 by (simp add: min_def)
    with f1 f2 show ?thesis by simp
  qed
qed


lemma put_map: "map (\<lambda>(k, v). (k, f v)) (put k v ob) = put k (f v) (map (\<lambda>(k, v). (k, f v)) ob)"
  by (induction ob) (auto split: prod.splits)

lemma map_of_mapped: "map_of (map (\<lambda>(k, v). (k, f v)) ob) k = map_option f (map_of ob k)"
  by (induction ob) auto

lemma set_put_subset: "set (put k v ob) \<subseteq> insert (k, v) (set ob)"
  by (induction ob) auto

lemma pushRow_rows:
  "rowsOfRefs h (pushRow r a tbls) = addRow (load h0 r) (h ! a) (rowsOfRefs h tbls)"
proof -
  let ?f = "\<lambda>rows. map (\<lambda>a. h ! a) rows"
  let ?g = "\<lambda>p. map (\<lambda>(d, rows). (d, ?f rows)) p"
  define p0 where "p0 = (case map_of tbls (nameOf r) of None \<Rightarrow> [] | Some p \<Rightarrow> p)"
  define d where "d = getDay (unixTimeOf r)"
  define p1 where "p1 = (if map_of p0 d = None then put d [] p0 else p0)"
  have r0: "partitionsOf (rowsOfRefs h tbls) (nameOf r) = ?g p0"
    by (simp add: partitionsOf_def rowsOfRefs_def map_of_mapped p0_def split: option.splits)
  have r1: "(if map_of (?g p0) d = None then put d [] (?g p0) else ?g p0) = ?g p1"
    by (simp add: p1_def map_of_mapped put_map)
  have r2: "bucket (?g p1) d = ?f (case map_of p1 d of None \<Rightarrow> [] | Some rows \<Rightarrow> rows)"
    by (simp add: bucket_def map_of_mapped split: option.splits)
  have "rowsOfRefs h (pushRow r a tbls) =
      put (nameOf r) (put d (bucket (?g p1) d @ [h ! a]) (?g p1)) (rowsOfRefs h tbls)"
    unfolding r2 by (simp add: pushRow_def Let_def p0_def[symmetric] d_def[symmetric]
        p1_def[symmetric] rowsOfRefs_def put_map)
  also have "\<dots> = addRow (load h0 r) (h ! a) (rowsOfRefs h tbls)"
    by (simp add: addRow_def Let_def load_def r0 d_def[symmetric] r1)
  finally show ?thesis .
qed

lemma refsBelow_pushRow:
  assumes "refsBelow n tbls" "a < n"
  shows "refsBelow n (pushRow r a tbls)"
proof -
  define p0 where "p0 = (case map_of tbls (nameOf r) of None \<Rightarrow> [] | Some p \<Rightarrow> p)"
  define d where "d = getDay (unixTimeOf r)"
  define p1 where "p1 = (if map_of p0 d = None then put d [] p0 else p0)"
  define b where "b = (case map_of p1 d of None \<Rightarrow> [] | Some rows \<Rightarrow> rows)"
  have e: "pushRow r a tbls = put (nameOf r) (put d (b @ [a]) p1) tbls"
    by (simp add: pushRow_def Let_def p0_def d_def p1_def b_def)
  have p0: "a' < n" if "(d', rows) \<in> set p0" "a' \<in> set rows" for d' rows a'
  proof (cases "map_of tbls (nameOf r)")
    case None
    with that show ?thesis by (simp add: p0_def)
  next
    case (Some p)
    then have "(nameOf r, p) \<in> set tbls" by (rule map_of_SomeD)
    with that Some assms(1) show ?thesis unfolding refsBelow_def p0_def by auto
  qed
  have p1: "a' < n" if "(d', rows) \<in> set p1" "a' \<in> set rows" for d' rows a'
    using that p0 set_put_subset[of d "[]" p0] by (auto simp: p1_def split: if_splits)
  have b: "a' < n" if "a' \<in> set b" for a'
  proof (cases "map_of p1 d")
    case None
    with that show ?thesis by (simp add: b_def)
  next
    case (Some rows)
    then have "(d, rows) \<in> set p1" by (rule map_of_SomeD)
    with that Some p1 show ?thesis by (auto simp: b_def)
  qed
  have p2: "a' < n" if "(d', rows) \<in> set (put d (b @ [a]) p1)" "a' \<in> set rows" for d' rows a'
  proof -
    from that(1) set_put_subset[of d "b @ [a]" p1]
    have "(d', rows) = (d, b @ [a]) \<or> (d', rows) \<in> set p1" by auto
    then show ?thesis
    proof
      assume "(d', rows) = (d, b @ [a])"
      with that(2) b assms(2) show ?thesis by auto
    next
      assume "(d', rows) \<in> set p1"
      with that(2) p1 show ?thesis by blast
    qed
  qed
  show ?thesis
    unfolding refsBelow_def e
  proof (intro allI impI, elim conjE)
    fix t p d' rows a'
    assume "(t, p) \<in> set (put (nameOf r) (put d (b @ [a]) p1) tbls)"
      "(d', rows) \<in> set p" "a' \<in> set rows"
    then show "a' < n"
      using set_put_subset[of "nameOf r" "put d (b @ [a]) p1" tbls] p2 assms(1)
      unfolding refsBelow_def by blast
  qed
qed

lemma rowsOfRefs_frame:
  assumes "refsBelow (length h) tbls" "take (length h) h' = h"
  shows "rowsOfRefs h' tbls = rowsOfRefs h tbls"
proof -
  have n: "h' ! a = h ! a" if "a < length h" for a
    using that assms(2) by (metis nth_take)
  show ?thesis
    unfolding rowsOfRefs_def
    using assms(1) n unfolding refsBelow_def
    by (auto simp: map_eq_conv split: prod.splits) 
qed

lemma copyColumnsAt_copyColumns:
  assumes "row \<noteq> cols" "row < length h"
  shows "fst (copyColumnsAt parse cols ks row h) =
           (case copyColumns parse (h ! cols) ks (h ! row) of Inl e \<Rightarrow> Some e | Inr ob \<Rightarrow> None)
       \<and> (\<forall>ob. copyColumns parse (h ! cols) ks (h ! row) = Inr ob \<longrightarrow>
             snd (copyColumnsAt parse cols ks row h) = h[row := ob])"
  using assms
proof (induction ks arbitrary: h)
  case Nil
  then show ?case by simp
next
  case (Cons key ks)
  show ?case
  proof (cases "normalize parse (get_prop (h ! cols) key)")
    case (Inl e)
    then show ?thesis by simp
  next
    case (Inr v)
    let ?h1 = "h[row := assign key v (h ! row)]"
    have c: "?h1 ! cols = h ! cols" "?h1 ! row = assign key v (h ! row)"
      using Cons.prems by simp_all
    have "fst (copyColumnsAt parse cols ks row ?h1) =
           (case copyColumns parse (?h1 ! cols) ks (?h1 ! row) of Inl e \<Rightarrow> Some e | Inr ob \<Rightarrow> None)
       \<and> (\<forall>ob. copyColumns parse (?h1 ! cols) ks (?h1 ! row) = Inr ob \<longrightarrow>
             snd (copyColumnsAt parse cols ks row ?h1) = ?h1[row := ob])"
      using Cons.prems by (intro Cons.IH) simp_all
    then show ?thesis using Inr unfolding c by simp
  qed
qed

lemma makeRowAt_makeRow:
  assumes "columnsAt r < length h"
  shows "fst (makeRowAt parse r h) =
           (case makeRow parse (load h r) of Inl e \<Rightarrow> Inl e | Inr ob \<Rightarrow> Inr (length h))
       \<and> (\<forall>ob. makeRow parse (load h r) = Inr ob \<longrightarrow> snd (makeRowAt parse r h) = h @ [ob])"
proof -
  let ?h1 = "h @ [newRow (load h r)]"
  let ?c = "copyColumnsAt parse (columnsAt r) (keys (?h1 ! columnsAt r)) (length h) ?h1"
  have c: "?h1 ! columnsAt r = columns (load h r)" "?h1 ! length h = newRow (load h r)"
    using assms by (simp_all add: nth_append load_def)
  have k: "fst ?c =
           (case copyColumns parse (?h1 ! columnsAt r) (keys (?h1 ! columnsAt r)) (?h1 ! length h)
            of Inl e \<Rightarrow> Some e | Inr ob \<Rightarrow> None)
       \<and> (\<forall>ob. copyColumns parse (?h1 ! columnsAt r) (keys (?h1 ! columnsAt r)) (?h1 ! length h)
               = Inr ob \<longrightarrow> snd ?c = ?h1[length h := ob])"
    using assms by (intro copyColumnsAt_copyColumns) simp_all
  have m: "makeRowAt parse r h =
      (case ?c of (Some e, h') \<Rightarrow> (Inl e, h') | (None, h') \<Rightarrow> (Inr (length h), h'))"
    by (simp add: makeRowAt_def Let_def)
  show ?thesis
  proof (cases "makeRow parse (load h r)")
    case (Inl e)
    with k have "fst ?c = Some e" unfolding c by (simp add: makeRow_def)
    then show ?thesis using Inl unfolding m by (cases ?c) simp
  next
    case (Inr ob)
    with k have "fst ?c = None" "snd ?c = ?h1[length h := ob]"
      unfolding c by (simp_all add: makeRow_def)
    then show ?thesis using Inr unfolding m by (cases ?c) simp
  qed
qed

lemma load_frame:
  assumes "columnsAt r < length h" "take (length h) h' = h"
  shows "load h' r = load h r"
proof -
  have "h' ! columnsAt r = h ! columnsAt r"
    using assms by (metis nth_take)
  then show ?thesis by (simp add: load_def)
qed

lemma parseLoopAt_parseLoop:
  assumes "\<forall>r\<in>set data. columnsAt r < length h" "refsBelow (length h) tbls"
  shows "case fst (parseLoopAt parse data tbls h) of
           Inl e \<Rightarrow> parseLoop parse (map (load h) data) (rowsOfRefs h tbls) = Inl e
         | Inr tbls' \<Rightarrow>
             parseLoop parse (map (load h) data) (rowsOfRefs h tbls)
               = Inr (rowsOfRefs (snd (parseLoopAt parse data tbls h)) tbls')
             \<and> refsBelow (length (snd (parseLoopAt parse data tbls h))) tbls'"
  using assms
proof (induction data arbitrary: tbls h)
  case Nil
  then show ?case by simp
next
  case (Cons r rest)
  have cr: "columnsAt r < length h" using Cons.prems(1) by simp
  note m = makeRowAt_makeRow[OF cr, of parse]
  show ?case
  proof (cases "makeRow parse (load h r)")
    case (Inl e)
    with m have "fst (makeRowAt parse r h) = Inl e" by simp
    then show ?thesis using Inl by (cases "makeRowAt parse r h") simp
  next
    case (Inr ob)
    let ?h1 = "h @ [ob]"
    let ?t1 = "pushRow r (length h) tbls"
    from m Inr have m1: "makeRowAt parse r h = (Inr (length h), ?h1)"
      by (cases "makeRowAt parse r h") simp
    have fr: "take (length h) ?h1 = h" by simp
    have c1: "\<forall>r\<in>set rest. columnsAt r < length ?h1" using Cons.prems(1) by auto
    have "refsBelow (length ?h1) tbls"
      using Cons.prems(2) unfolding refsBelow_def by fastforce
    then have b1: "refsBelow (length ?h1) ?t1"
      by (rule refsBelow_pushRow) simp
    have ld: "map (load ?h1) rest = map (load h) rest"
      using Cons.prems(1) fr by (auto intro: load_frame)
    have rows: "rowsOfRefs ?h1 ?t1 = addRow (load h r) ob (rowsOfRefs h tbls)"
      using pushRow_rows[of ?h1 r "length h" tbls h]
        rowsOfRefs_frame[OF Cons.prems(2) fr] by simp
    have step: "parseLoopAt parse (r # rest) tbls h = parseLoopAt parse rest ?t1 ?h1"
      using m1 by simp
    have pstep: "parseLoop parse (map (load h) (r # rest)) (rowsOfRefs h tbls)
        = parseLoop parse (map (load ?h1) rest) (rowsOfRefs ?h1 ?t1)"
      using Inr by (simp add: ld rows)
    from Cons.IH[OF c1 b1] show ?thesis
      unfolding step pstep .
  qed
qed

lemma makeRowAt_ok:
  assumes "columnsAt r < length h" "makeRow parse (load h r) = Inr ob"
  shows "makeRowAt parse r h = (Inr (length h), h @ [ob])"
  using makeRowAt_makeRow[OF assms(1), of parse] assms(2)
  by (cases "makeRowAt parse r h") simp

lemma parseResultAt_frame: "take (length h) (snd (parseResultAt parse data h)) = h"
  using parseLoopAt_frame[of parse data "[]" h] 
  by (cases "parseLoopAt parse data [] h") (simp add: parseResultAt_def)

lemma load_samples:
  "load sampleHeap storedAdded = eventAdded"
  "load (sampleHeap @ [x]) storedSameDay = eventSameDay"
  by (simp_all add: load_def sampleHeap_def storedAdded_def storedSameDay_def
        eventAdded_def eventSameDay_def)

lemma parseResultAt_sample:
  "parseResultAt sampleParse [storedAdded, storedSameDay] sampleHeap =
     (Inr [(''kubernetes_events'', [(''20210508'', [2, 3])])],
      sampleHeap @ [rowOf sampleParse eventAdded, rowOf sampleParse eventSameDay])"
proof -
  have a: "makeRowAt sampleParse storedAdded sampleHeap
      = (Inr 2, sampleHeap @ [rowOf sampleParse eventAdded])"
    using makeRowAt_ok[of storedAdded sampleHeap sampleParse "rowOf sampleParse eventAdded"]
    by (simp add: load_samples makeRow_rowOf normalizable_samples)
      (simp add: sampleHeap_def storedAdded_def)
  have b: "makeRowAt sampleParse storedSameDay (sampleHeap @ [rowOf sampleParse eventAdded])
      = (Inr 3, sampleHeap @ [rowOf sampleParse eventAdded, rowOf sampleParse eventSameDay])"
    using makeRowAt_ok[of storedSameDay "sampleHeap @ [rowOf sampleParse eventAdded]" sampleParse
        "rowOf sampleParse eventSameDay"]
    by (simp add: load_samples makeRow_rowOf normalizable_samples)
      (simp add: sampleHeap_def storedSameDay_def)
  have d: "getDay (unixTimeOf storedAdded) = ''20210508''"
    "getDay (unixTimeOf storedSameDay) = ''20210508''"
    "nameOf storedAdded = ''kubernetes_events''" "nameOf storedSameDay = ''kubernetes_events''"
    by (simp_all add: storedAdded_def storedSameDay_def getDay_boundary)
  show ?thesis
    by (simp add: parseResultAt_def a b pushRow_def Let_def d)
qed

text \<open>
  The later revision of \<^verbatim>\<open>parseResult\<close> on a batch of records with plain names. It leaves
  every object that exists before the call as it is, whether it returns or raises: in
  particular the \<^verbatim>\<open>columns\<close> object of every record of the batch keeps its entries. What
  it returns is determined by the records of the batch: read through the store, its
  dataset is the dataset that \<open>parseResult\<close> computes from the records, and it raises
  when \<open>parseResult\<close> does. The function calls nothing but \<^verbatim>\<open>getDay\<close>, \<^verbatim>\<open>Object.keys\<close>,
  \<^verbatim>\<open>JSON.parse\<close> and \<^verbatim>\<open>push\<close>.

  For a record named \<^verbatim>\<open>constructor\<close> the program does not stay within these objects:
  \<^verbatim>\<open>tables['constructor']\<close> finds the function \<^verbatim>\<open>Object\<close> of the platform, the bucket is
  created on that function, and it is still there at the next call, which returns the
  rows of both calls. The store does not hold the objects of the platform, so the
  statement is for plain names.
\<close>

lemma parseResult_leaves_input:
  assumes names: "\<forall>r\<in>set data. plainName (nameOf r)"
  shows "take (length h) (snd (parseResultAt parse data h)) = h"
    and "\<forall>r\<in>set data. columnsAt r < length h \<longrightarrow>
           snd (parseResultAt parse data h) ! columnsAt r = h ! columnsAt r"
    and "(\<forall>r\<in>set data. columnsAt r < length h) \<longrightarrow>
           (case fst (parseResultAt parse data h) of
              Inl e \<Rightarrow> parseResult parse (map (load h) data) = Inl e
            | Inr tbls \<Rightarrow>
                parseResult parse (map (load h) data)
                  = Inr (rowsOfRefs (snd (parseResultAt parse data h)) tbls))"
proof -
  show f: "take (length h) (snd (parseResultAt parse data h)) = h"
    by (rule parseResultAt_frame)
  show "\<forall>r\<in>set data. columnsAt r < length h \<longrightarrow>
           snd (parseResultAt parse data h) ! columnsAt r = h ! columnsAt r"
    using f by (metis nth_take)
  show "(\<forall>r\<in>set data. columnsAt r < length h) \<longrightarrow>
           (case fst (parseResultAt parse data h) of
              Inl e \<Rightarrow> parseResult parse (map (load h) data) = Inl e
            | Inr tbls \<Rightarrow>
                parseResult parse (map (load h) data)
                  = Inr (rowsOfRefs (snd (parseResultAt parse data h)) tbls))"
  proof
    assume a: "\<forall>r\<in>set data. columnsAt r < length h"
    have b: "refsBelow (length h) []" by (simp add: refsBelow_def)
    have e: "rowsOfRefs h [] = []" by (simp add: rowsOfRefs_def)
    from parseLoopAt_parseLoop[OF a b, of parse]
    show "case fst (parseResultAt parse data h) of
              Inl e \<Rightarrow> parseResult parse (map (load h) data) = Inl e
            | Inr tbls \<Rightarrow>
                parseResult parse (map (load h) data)
                  = Inr (rowsOfRefs (snd (parseResultAt parse data h)) tbls)"
      unfolding parseResultAt_def parseResult_def e by (simp split: sum.splits)
  qed
qed

lemma parseResult_leaves_input_sample:
  "snd (parseResultAt sampleParse [storedAdded, storedSameDay] sampleHeap) ! columnsAt storedAdded
       = columns eventAdded"
  "fst (parseResultAt sampleParse [storedAdded, storedSameDay] sampleHeap)
       = Inr [(''kubernetes_events'', [(''20210508'', [2, 3])])]"
  "parseResult sampleParse (map (load sampleHeap) [storedAdded, storedSameDay])
       = Inr [(''kubernetes_events'',
               [(''20210508'', [rowOf sampleParse eventAdded, rowOf sampleParse eventSameDay])])]"
proof -
  have n: "\<forall>r\<in>set [storedAdded, storedSameDay]. plainName (nameOf r)"
    by (simp add: storedAdded_def storedSameDay_def plain_samples)
  note t = parseResult_leaves_input [OF n, of sampleHeap sampleParse]
  have c: "columnsAt storedAdded < length sampleHeap" "columnsAt storedSameDay < length sampleHeap"
    by (simp_all add: storedAdded_def storedSameDay_def sampleHeap_def)
  have s: "sampleHeap ! columnsAt storedAdded = columns eventAdded"
    by (simp add: storedAdded_def sampleHeap_def)
  from t(2) c s show "snd (parseResultAt sampleParse [storedAdded, storedSameDay] sampleHeap)
      ! columnsAt storedAdded = columns eventAdded"
    by simp
  show "fst (parseResultAt sampleParse [storedAdded, storedSameDay] sampleHeap)
       = Inr [(''kubernetes_events'', [(''20210508'', [2, 3])])]"
    by (simp add: parseResultAt_sample)
  from t(3) c have "case fst (parseResultAt sampleParse [storedAdded, storedSameDay] sampleHeap) of
            Inl e \<Rightarrow> parseResult sampleParse (map (load sampleHeap) [storedAdded, storedSameDay]) = Inl e
          | Inr tbls \<Rightarrow>
              parseResult sampleParse (map (load sampleHeap) [storedAdded, storedSameDay])
                = Inr (rowsOfRefs (snd (parseResultAt sampleParse [storedAdded, storedSameDay] sampleHeap)) tbls)"
    by simp
  then show "parseResult sampleParse (map (load sampleHeap) [storedAdded, storedSameDay])
       = Inr [(''kubernetes_events'',
               [(''20210508'', [rowOf sampleParse eventAdded, rowOf sampleParse eventSameDay])])]"
    unfolding parseResultAt_sample by (simp add: rowsOfRefs_def sampleHeap_def)
qed

text \<open>
  The earlier revision writes the reserved keys into the \<^verbatim>\<open>columns\<close> object of the record,
  where they replace a column of the same name.
\<close>

lemma oldRowAt_writes:
  assumes "columnsAt r < length h"
  shows "snd (oldRowAt r h) ! columnsAt r =
     put ''added'' (JBool (actionOf r = JStr ''added''))
       (put ''unixTime'' (num_val (unixTimeOf r))
          (put ''calendarTime'' (calendarTimeOf r) (h ! columnsAt r)))"
  using assms by (simp add: oldRowAt_def Let_def)

lemma oldRowAt_reserved:
  assumes "columnsAt r < length h"
  shows "get_prop (snd (oldRowAt r h) ! columnsAt r) ''calendarTime'' = calendarTimeOf r"
    "get_prop (snd (oldRowAt r h) ! columnsAt r) ''unixTime'' = num_val (unixTimeOf r)"
    "get_prop (snd (oldRowAt r h) ! columnsAt r) ''added'' = JBool (actionOf r = JStr ''added'')"
  using assms by (simp_all add: oldRowAt_writes get_prop_def map_of_put)

lemma parseResultOld_writes_columns:
  "snd (parseResultOld [storedAdded] sampleHeap) ! columnsAt storedAdded
     = columns eventAdded
         @ [(''calendarTime'', JStr ''Sat May  8 00:44:15 2021 UTC''),
            (''unixTime'', JNum 1620434655), (''added'', JBool True)]"
  "snd (parseResultOld [storedAdded] sampleHeap) ! columnsAt storedAdded
     \<noteq> sampleHeap ! columnsAt storedAdded"
  by (simp_all add: parseResultOld_def oldRowAt_def Let_def storedAdded_def sampleHeap_def
        eventAdded_def num_val_def split: prod.splits)

end
